theory Spec2Isabelle
  imports Main "HOL-Library.Sublist"
begin

section \<open>The C library as the transport code uses it\<close>

text \<open>
  The file \<^verbatim>\<open>src/oauth_http.c\<close> builds a shell command from a template, runs it with
  \<^verbatim>\<open>popen\<close> and collects the child's standard output. The functions compiled without
  \<^verbatim>\<open>HAVE_CURL\<close> are modelled, with \<^verbatim>\<open>DEBUG_OAUTH\<close> undefined.

  A value of type \<^typ>\<open>string\<close> stands for a C string: the characters before its
  terminating NUL, so NUL is not among them (statements that depend on it say so). Raw
  memory whose bytes matter one by one (the capture buffer, the scratch block of the
  GET path) is a \<^typ>\<open>char list\<close> as long as the block. Sizes are natural numbers:
  \<^verbatim>\<open>size_t\<close> does not wrap for any amount of memory a process can hold.

  Whatever the C standard leaves undefined is a \<open>fault\<close>: the model stops there and
  reports which rule was broken.
\<close>

definition NUL :: char where
  "NUL = CHR 0x00"

datatype fault =
    Invalid_pointer  \<comment> \<open>a string block is used that is not live\<close>
  | Buffer_overrun  \<comment> \<open>a read or a write leaves its block\<close>
  | Null_stream  \<comment> \<open>\<^verbatim>\<open>pclose\<close> is given the null stream\<close>
  | Null_pointer_write  \<comment> \<open>a store through the null pointer\<close>
  | Null_string_argument  \<comment> \<open>\<^verbatim>\<open>%s\<close> is given the null pointer\<close>
  | Bad_conversion  \<comment> \<open>a conversion the arguments do not serve\<close>
  | Zero_size_buffer  \<comment> \<open>the command array was never written\<close>

type_synonym addr = nat

text \<open>
  Two constants come from headers that are not part of the sources: \<^verbatim>\<open>BUFSIZ\<close>
  (\<^verbatim>\<open>stdio.h\<close>) and \<^verbatim>\<open>VERSION\<close> (\<^verbatim>\<open>config.h\<close>). They are parameters.
\<close>

record build =
  BUFSIZ :: nat
  VERSION :: string

text \<open>
  The world a request runs in.
  \<^item> \<open>environ\<close>: \<^verbatim>\<open>getenv\<close>; a set variable yields the address of its value.
  \<^item> \<open>heap\<close>: the string blocks, addressed by position. \<open>None\<close> is a freed block. A new
    block is appended, so its address is fresh.
  \<^item> \<open>uninit\<close>: the byte found at each offset of memory that was allocated and not yet
    written.
  \<^item> \<open>child_stdout\<close>: \<^verbatim>\<open>popen\<close>; the bytes the child writes before it closes its
    standard output, or \<open>None\<close> when no child could be started.
  \<^item> \<open>stderr\<close>: what has been printed on the diagnostic channel.
  \<^item> \<open>popen_calls\<close>: the command lines handed to \<^verbatim>\<open>popen\<close>, oldest first.
\<close>

record world =
  environ :: "string \<Rightarrow> addr option"
  heap :: "string option list"
  uninit :: "nat \<Rightarrow> char"
  child_stdout :: "string \<Rightarrow> string option"
  stderr :: string
  popen_calls :: "string list"

type_synonym 'a outcome = "(fault + 'a) \<times> world"

definition seq :: "'a outcome \<Rightarrow> ('a \<Rightarrow> world \<Rightarrow> 'b outcome) \<Rightarrow> 'b outcome" where
  "seq m k = (case m of (Inl f, w) \<Rightarrow> (Inl f, w) | (Inr x, w) \<Rightarrow> k x w)"

subsection \<open>Strings on the heap\<close>

definition getenv :: "world \<Rightarrow> string \<Rightarrow> addr option" where
  "getenv w name = environ w name"

definition load :: "world \<Rightarrow> addr \<Rightarrow> string outcome" where
  "load w a =
     (if a < length (heap w) then
        (case heap w ! a of None \<Rightarrow> (Inl Invalid_pointer, w) | Some s \<Rightarrow> (Inr s, w))
      else (Inl Invalid_pointer, w))"

text \<open>\<^verbatim>\<open>strdup\<close> always finds memory for the copy.\<close>

definition strdup :: "world \<Rightarrow> string \<Rightarrow> addr outcome" where
  "strdup w s = (Inr (length (heap w)), w\<lparr>heap := heap w @ [Some s]\<rparr>)"

text \<open>\<^verbatim>\<open>*(p + i) = c\<close> for a pointer \<open>p\<close> to the start of a string block.\<close>

definition poke :: "world \<Rightarrow> addr \<Rightarrow> nat \<Rightarrow> char \<Rightarrow> unit outcome" where
  "poke w a i c =
     seq (load w a) (\<lambda>s w.
       if i < length s then (Inr (), w\<lparr>heap := (heap w)[a := Some (s[i := c])]\<rparr>)
       else (Inl Buffer_overrun, w))"

definition free :: "world \<Rightarrow> addr \<Rightarrow> unit outcome" where
  "free w a = seq (load w a) (\<lambda>s w. (Inr (), w\<lparr>heap := (heap w)[a := None]\<rparr>))"

text \<open>\<^verbatim>\<open>strstr\<close>: the offset of the first occurrence, \<open>None\<close> for the null pointer.\<close>

fun strstr :: "string \<Rightarrow> string \<Rightarrow> nat option" where
  "strstr [] needle = (if needle = [] then Some 0 else None)"
| "strstr (c # cs) needle =
     (if prefix needle (c # cs) then Some 0 else map_option Suc (strstr cs needle))"

subsection \<open>Formatted output\<close>

definition emit :: "string \<Rightarrow> fault + string \<Rightarrow> fault + string" where
  "emit s r = (case r of Inl f \<Rightarrow> Inl f | Inr t \<Rightarrow> Inr (s @ t))"

text \<open>
  The text a \<^verbatim>\<open>printf\<close> format produces from string arguments (\<open>None\<close> is a null
  pointer). Ordinary characters are copied, \<^verbatim>\<open>%%\<close> writes a percent sign and
  \<^verbatim>\<open>%s\<close> writes the next argument. A \<^verbatim>\<open>%s\<close> with no argument left or with a null
  argument is undefined; so is a lone \<^verbatim>\<open>%\<close> at the end. Every other conversion is
  outside the model and reported as \<open>Bad_conversion\<close>. Arguments left over are ignored.
\<close>

fun c_format :: "string \<Rightarrow> string option list \<Rightarrow> fault + string" where
  "c_format [] args = Inr []"
| "c_format [c] args = (if c = CHR ''%'' then Inl Bad_conversion else Inr [c])"
| "c_format (c # d # rest) args =
     (if c \<noteq> CHR ''%'' then emit [c] (c_format (d # rest) args)
      else if d = CHR ''%'' then emit [CHR ''%''] (c_format rest args)
      else if d = CHR ''s'' then
        (case args of
           [] \<Rightarrow> Inl Bad_conversion
         | None # _ \<Rightarrow> Inl Null_string_argument
         | Some a # args' \<Rightarrow> emit a (c_format rest args'))
      else Inl Bad_conversion)"

text \<open>
  \<^verbatim>\<open>snprintf(cmd, n, fmt, ...)\<close> with the format read from the heap: at most \<open>n - 1\<close>
  characters are stored, the rest is dropped without any sign to the caller (the return
  value, which would tell, is not looked at by the code). With \<open>n = 0\<close> nothing is
  stored and the array stays unwritten.
\<close>

definition snprintf :: "world \<Rightarrow> nat \<Rightarrow> addr \<Rightarrow> string option list \<Rightarrow> string outcome" where
  "snprintf w n fmt args =
     (if n = 0 then (Inl Zero_size_buffer, w)
      else seq (load w fmt) (\<lambda>s w.
        case c_format s args of
          Inl f \<Rightarrow> (Inl f, w)
        | Inr full \<Rightarrow> (Inr (take (n - 1) full), w)))"

definition fprintf_stderr :: "world \<Rightarrow> string \<Rightarrow> world" where
  "fprintf_stderr w s = w\<lparr>stderr := stderr w @ s\<rparr>"

subsection \<open>Raw blocks\<close>

text \<open>
  Modelled from the spec: \<^verbatim>\<open>xmalloc\<close> and \<^verbatim>\<open>xrealloc\<close>, declared in \<^verbatim>\<open>xmalloc.h\<close>,
  whose code is not among the sources. The spec has the buffer grow by fixed increments,
  each capacity requested before the read that needs it, and names no failure of the
  request: a call yields a block of the size asked for, and \<^verbatim>\<open>xrealloc\<close> keeps the
  bytes of the old block. Nothing says that new memory is cleared; what its bytes hold is
  the world's parameter \<open>uninit\<close>.
\<close>

definition xmalloc :: "world \<Rightarrow> nat \<Rightarrow> char list" where
  "xmalloc w n = map (uninit w) [0..<n]"

definition xrealloc :: "world \<Rightarrow> char list option \<Rightarrow> nat \<Rightarrow> char list" where
  "xrealloc w p n =
     (case p of
        None \<Rightarrow> xmalloc w n
      | Some blk \<Rightarrow> take n blk @ map (uninit w) [length blk..<n])"

text \<open>
  \<^verbatim>\<open>strcat(dst, src)\<close> on a block \<open>dst\<close>: the copy starts at the first NUL of \<open>dst\<close>,
  wherever that is. Without a NUL in the block the search leaves it, and so does a copy
  that does not fit.
\<close>

definition strcat :: "char list \<Rightarrow> string \<Rightarrow> fault + char list" where
  "strcat dst src =
     (let k = length (takeWhile (\<lambda>c. c \<noteq> NUL) dst) in
      if k + length src + 1 \<le> length dst
      then Inr (take k dst @ src @ [NUL] @ drop (k + length src + 1) dst)
      else Inl Buffer_overrun)"

definition c_str :: "char list \<Rightarrow> fault + string" where
  "c_str blk =
     (if NUL \<in> set blk then Inr (takeWhile (\<lambda>c. c \<noteq> NUL) blk) else Inl Buffer_overrun)"

definition and_then :: "fault + 'a \<Rightarrow> ('a \<Rightarrow> fault + 'b) \<Rightarrow> fault + 'b" where
  "and_then r k = (case r of Inl f \<Rightarrow> Inl f | Inr x \<Rightarrow> k x)"

definition lift :: "world \<Rightarrow> fault + 'a \<Rightarrow> 'a outcome" where
  "lift w r = (r, w)"

subsection \<open>Streams\<close>

text \<open>
  A stream opened by \<^verbatim>\<open>popen\<close>: the bytes not yet read and the end-of-file indicator,
  which is clear on a new stream and set by the first read that comes up short.
  \<^verbatim>\<open>fread(ptr, 1, n, in)\<close> may store \<open>n\<close> bytes from \<open>ptr\<close> on, so the block must hold
  that many; it returns the number of bytes stored. Read errors are left out: a read
  comes up short only where the output ends.
\<close>

record pipe =
  pending :: "char list"
  at_eof :: bool

definition feof :: "pipe \<Rightarrow> bool" where
  "feof s = at_eof s"

definition fread :: "char list \<Rightarrow> nat \<Rightarrow> pipe \<Rightarrow> fault + (nat \<times> char list \<times> pipe)" where
  "fread blk n s =
     (if length blk < n then Inl Buffer_overrun
      else
        let chunk = take n (pending s) in
        Inr (length chunk,
             chunk @ drop (length chunk) blk,
             \<lparr>pending = drop n (pending s),
              at_eof = (at_eof s \<or> length (pending s) < n)\<rparr>))"

section \<open>The subprocess runner\<close>

text \<open>
  The local variables of \<^verbatim>\<open>oauth_exec_shell\<close> once the stream is open (\<open>inp\<close> is
  the source's \<^verbatim>\<open>in\<close>).
\<close>

record capture =
  inp :: pipe
  len :: nat
  alloc :: nat
  data :: "char list option"
  rcv :: int

text \<open>
  The loop body:
  \<^verbatim>\<open>alloc += 1024; data = xrealloc(data, alloc); rcv = fread(data, 1, 1024, in); len += rcv;\<close>
  The read stores at \<^verbatim>\<open>data\<close>, the start of the block, in every round.
\<close>

definition capture_step :: "world \<Rightarrow> capture \<Rightarrow> fault + capture" where
  "capture_step w st =
     (let alloc' = alloc st + 1024;
          data' = xrealloc w (data st) alloc'
      in and_then (fread data' 1024 (inp st)) (\<lambda>(n, blk, s').
           Inr \<lparr>inp = s', len = len st + n, alloc = alloc', data = Some blk, rcv = int n\<rparr>))"

function capture_loop :: "world \<Rightarrow> capture \<Rightarrow> fault + capture" where
  "capture_loop w st =
     (if rcv st > 0 \<and> \<not> feof (inp st)
      then (case capture_step w st of Inl f \<Rightarrow> Inl f | Inr st' \<Rightarrow> capture_loop w st')
      else Inr st)"
  by pat_completeness auto
termination
proof (relation "measure (\<lambda>(w, st). length (pending (inp st)) + (if at_eof (inp st) then 0 else 1))")
  show "wf (measure (\<lambda>(w, st). length (pending (inp st)) + (if at_eof (inp st) then 0 else 1)))"
    by simp
next
  fix w :: world and st st' :: capture
  assume run: "0 < rcv st \<and> \<not> feof (inp st)" and step: "capture_step w st = Inr st'"
  from step have "pending (inp st') = drop 1024 (pending (inp st))"
    and "at_eof (inp st') = (at_eof (inp st) \<or> length (pending (inp st)) < 1024)"
    by (auto simp: capture_step_def fread_def and_then_def Let_def split: if_splits)
  with run show "((w, st'), (w, st)) \<in>
      measure (\<lambda>(w, st). length (pending (inp st)) + (if at_eof (inp st) then 0 else 1))"
    by (auto simp: feof_def)
qed

declare capture_loop.simps [simp del]

text \<open>
  The locals as declared: \<^verbatim>\<open>len = 0; alloc = 0; data = NULL; rcv = 1;\<close> with the new
  stream.
\<close>

definition capture_start :: "char list \<Rightarrow> capture" where
  "capture_start out =
     \<lparr>inp = \<lparr>pending = out, at_eof = False\<rparr>, len = 0, alloc = 0, data = None, rcv = 1\<rparr>"

text \<open>
  \<^verbatim>\<open>oauth_exec_shell\<close>. With a null stream the loop is skipped and \<^verbatim>\<open>pclose\<close> is the
  first thing to act on the null pointer (the store \<^verbatim>\<open>data[len] = 0\<close> through the null
  \<open>data\<close> would be the next). The result is the whole block returned to the caller.
\<close>

definition oauth_exec_shell :: "world \<Rightarrow> string \<Rightarrow> char list option outcome" where
  "oauth_exec_shell w cmd =
     (let w' = w\<lparr>popen_calls := popen_calls w @ [cmd]\<rparr> in
      case child_stdout w cmd of
        None \<Rightarrow> (Inl Null_stream, w')
      | Some out \<Rightarrow>
          seq (lift w' (capture_loop w' (capture_start out))) (\<lambda>st w.
            case data st of
              None \<Rightarrow> (Inl Null_pointer_write, w)
            | Some blk \<Rightarrow>
                if len st < length blk then (Inr (Some (blk[len st := NUL])), w)
                else (Inl Buffer_overrun, w)))"

section \<open>The request formatters\<close>

definition OAUTH_USER_AGENT :: "build \<Rightarrow> string" where
  "OAUTH_USER_AGENT B = ''liboauth-agent/'' @ VERSION B"

definition OAUTH_ENV_HTTPCMD :: string where
  "OAUTH_ENV_HTTPCMD = ''OAUTH_HTTP_CMD''"

definition OAUTH_DEF_HTTPCMD :: "build \<Rightarrow> string" where
  "OAUTH_DEF_HTTPCMD B =
     ''curl -sA '' @ [CHR 0x27] @ OAUTH_USER_AGENT B @ [CHR 0x27] @ '' -d '' @
     [CHR 0x27] @ ''%p'' @ [CHR 0x27] @ '' '' @ [CHR 0x27] @ ''%u'' @ [CHR 0x27] @ '' ''"

definition OAUTH_ENV_HTTPGET :: string where
  "OAUTH_ENV_HTTPGET = ''OAUTH_HTTP_GET_CMD''"

definition OAUTH_DEF_HTTPGET :: "build \<Rightarrow> string" where
  "OAUTH_DEF_HTTPGET B =
     ''curl -sA '' @ [CHR 0x27] @ OAUTH_USER_AGENT B @ [CHR 0x27] @ '' '' @
     [CHR 0x27] @ ''%u'' @ [CHR 0x27] @ '' ''"

text \<open>The message both formatters print for a template they reject.\<close>

definition diagnostic :: "string \<Rightarrow> string" where
  "diagnostic var =
     [CHR 0x0A] @ ''liboauth: invalid HTTP command. set the '' @ [CHR 0x27] @ var @
     [CHR 0x27] @ '' environement variable.'' @ [CHR 0x0A, CHR 0x0A]"

text \<open>
  \<^verbatim>\<open>cmdtpl = getenv(var); if (!cmdtpl) cmdtpl = strdup(def); else cmdtpl = strdup(cmdtpl);\<close>
\<close>

definition clone_template :: "world \<Rightarrow> string \<Rightarrow> string \<Rightarrow> addr outcome" where
  "clone_template w var def =
     (case getenv w var of
        None \<Rightarrow> strdup w def
      | Some e \<Rightarrow> seq (load w e) (\<lambda>s w. strdup w s))"

text \<open>
  \<^verbatim>\<open>oauth_exec_post\<close>. \<open>t1\<close> and \<open>t2\<close> are offsets into the copy; after the two
  increments they are one past the percent signs, and \<^verbatim>\<open>t1 > t2\<close> compares them there.
  The early return leaves the copy allocated.
\<close>

definition oauth_exec_post ::
  "build \<Rightarrow> world \<Rightarrow> string option \<Rightarrow> string option \<Rightarrow> char list option outcome" where
  "oauth_exec_post B w u p =
     seq (clone_template w OAUTH_ENV_HTTPCMD (OAUTH_DEF_HTTPCMD B)) (\<lambda>cmdtpl w.
     seq (load w cmdtpl) (\<lambda>s w.
       case (strstr s ''%p'', strstr s ''%u'') of
         (Some i, Some j) \<Rightarrow>
           (let t1 = i + 1; t2 = j + 1 in
            seq (poke w cmdtpl t1 CHR ''s'') (\<lambda>_ w.
            seq (poke w cmdtpl t2 CHR ''s'') (\<lambda>_ w.
            seq (snprintf w (BUFSIZ B) cmdtpl
                   [if t1 > t2 then u else p, if t1 > t2 then p else u]) (\<lambda>cmd w.
            seq (free w cmdtpl) (\<lambda>_ w.
            oauth_exec_shell w cmd)))))
       | _ \<Rightarrow> (Inr None, fprintf_stderr w (diagnostic OAUTH_ENV_HTTPCMD))))"

text \<open>
  The argument \<^verbatim>\<open>q ? t1 : u\<close> of the GET path, with the block before it:
  \<^verbatim>\<open>if (q) { t1 = xmalloc(strlen(u) + strlen(q) + 2); strcat(t1, u); strcat(t1, "?"); strcat(t1, q); }\<close>
  The three \<^verbatim>\<open>strcat\<close> calls append to whatever string the new block holds.
\<close>

definition url_argument :: "world \<Rightarrow> string \<Rightarrow> string option \<Rightarrow> fault + string" where
  "url_argument w us q =
     (case q of
        None \<Rightarrow> Inr us
      | Some qs \<Rightarrow>
          and_then (strcat (xmalloc w (length us + length qs + 2)) us) (\<lambda>t1.
          and_then (strcat t1 ''?'') (\<lambda>t1.
          and_then (strcat t1 qs) c_str)))"

text \<open>\<^verbatim>\<open>oauth_exec_get\<close>. The test of \<open>u\<close> comes before anything else.\<close>

definition oauth_exec_get ::
  "build \<Rightarrow> world \<Rightarrow> string option \<Rightarrow> string option \<Rightarrow> char list option outcome" where
  "oauth_exec_get B w u q =
     (case u of
        None \<Rightarrow> (Inr None, w)
      | Some us \<Rightarrow>
     seq (clone_template w OAUTH_ENV_HTTPGET (OAUTH_DEF_HTTPGET B)) (\<lambda>cmdtpl w.
     seq (load w cmdtpl) (\<lambda>s w.
       case strstr s ''%u'' of
         None \<Rightarrow> (Inr None, fprintf_stderr w (diagnostic OAUTH_ENV_HTTPGET))
       | Some i \<Rightarrow>
           seq (poke w cmdtpl (i + 1) CHR ''s'') (\<lambda>_ w.
           seq (lift w (url_argument w us q)) (\<lambda>arg w.
           seq (snprintf w (BUFSIZ B) cmdtpl [Some arg]) (\<lambda>cmd w.
           seq (free w cmdtpl) (\<lambda>_ w.
           oauth_exec_shell w cmd)))))))"

section \<open>Vocabulary for the statements\<close>

text \<open>
  The template text a request starts from: the value of the override variable if it is
  set, the built-in default otherwise. \<open>None\<close> if the environment points at no live
  block.
\<close>

definition template_source :: "world \<Rightarrow> string \<Rightarrow> string \<Rightarrow> string option" where
  "template_source w var def =
     (case environ w var of
        None \<Rightarrow> Some def
      | Some e \<Rightarrow> (if e < length (heap w) then heap w ! e else None))"

text \<open>
  What holds of the locals after every round of the capture loop: \<open>data\<close> points at a
  block of \<open>alloc\<close> bytes, at least one increment; the last read stored \<open>rcv\<close> bytes,
  at most an increment, and fewer once the end of the output was seen; and \<open>len\<close> is
  that far below the capacity.
\<close>

definition capture_inv :: "capture \<Rightarrow> bool" where
  "capture_inv st \<longleftrightarrow>
     (case data st of None \<Rightarrow> False | Some blk \<Rightarrow> length blk = alloc st) \<and>
     1024 \<le> alloc st \<and>
     0 \<le> rcv st \<and> rcv st \<le> 1024 \<and>
     len st + 1024 \<le> alloc st + nat (rcv st) \<and>
     (if at_eof (inp st) then rcv st < 1024 else True)"

text \<open>
  A build and a family of worlds for concrete runs: both override variables are set, the
  POST template is block 0 and the GET template block 1, fresh memory is full of
  \<^verbatim>\<open>#\<close>, and every command prints \<open>out\<close> (or cannot be started, for \<open>None\<close>).
\<close>

definition demo_build :: build where
  "demo_build = \<lparr>BUFSIZ = 8192, VERSION = ''1.0''\<rparr>"

definition demo_environ :: "string \<Rightarrow> addr option" where
  "demo_environ name =
     (if name = OAUTH_ENV_HTTPCMD then Some 0
      else if name = OAUTH_ENV_HTTPGET then Some 1
      else None)"

definition dirty :: "nat \<Rightarrow> char" where
  "dirty i = CHR ''#''"

definition prints :: "string option \<Rightarrow> string \<Rightarrow> string option" where
  "prints out cmd = out"

definition demo_world :: "string \<Rightarrow> string \<Rightarrow> string option \<Rightarrow> world" where
  "demo_world post_tpl get_tpl out =
     \<lparr>environ = demo_environ,
      heap = [Some post_tpl, Some get_tpl],
      uninit = dirty,
      child_stdout = prints out,
      stderr = [],
      popen_calls = []\<rparr>"

section \<open>Facts about the library model\<close>

lemma seq_Inr [simp]: "seq (Inr x, w) k = k x w"
  by (simp add: seq_def)

lemma seq_Inl [simp]: "seq (Inl f, w) k = (Inl f, w)"
  by (simp add: seq_def)

lemma and_then_Inr [simp]: "and_then (Inr x) k = k x"
  by (simp add: and_then_def)

lemma and_then_Inl [simp]: "and_then (Inl f) k = Inl f"
  by (simp add: and_then_def)

lemma emit_Inr [simp]: "emit s (Inr t) = Inr (s @ t)"
  by (simp add: emit_def)

lemma emit_Inl [simp]: "emit s (Inl f) = Inl f"
  by (simp add: emit_def)

lemma clone_template_source:
  assumes "template_source w var def = Some tpl"
  shows "clone_template w var def = (Inr (length (heap w)), w\<lparr>heap := heap w @ [Some tpl]\<rparr>)"
  using assms
  by (auto simp: template_source_def clone_template_def getenv_def strdup_def load_def
      split: option.splits if_splits)

lemma load_copy [simp]:
  "load (w\<lparr>heap := heap w @ [Some s]\<rparr>) (length (heap w)) = (Inr s, w\<lparr>heap := heap w @ [Some s]\<rparr>)"
  by (simp add: load_def)

lemma poke_copy [simp]:
  "i < length s \<Longrightarrow>
   poke (w\<lparr>heap := heap w @ [Some s]\<rparr>) (length (heap w)) i c =
     (Inr (), w\<lparr>heap := heap w @ [Some (s[i := c])]\<rparr>)"
  by (simp add: poke_def)

lemma free_copy [simp]:
  "free (w\<lparr>heap := heap w @ [Some s]\<rparr>) (length (heap w)) = (Inr (), w\<lparr>heap := heap w @ [None]\<rparr>)"
  by (simp add: free_def)

lemma snprintf_copy:
  "snprintf (w\<lparr>heap := heap w @ [Some s]\<rparr>) n (length (heap w)) args =
     (if n = 0 then (Inl Zero_size_buffer, w\<lparr>heap := heap w @ [Some s]\<rparr>)
      else case c_format s args of
        Inl f \<Rightarrow> (Inl f, w\<lparr>heap := heap w @ [Some s]\<rparr>)
      | Inr full \<Rightarrow> (Inr (take (n - 1) full), w\<lparr>heap := heap w @ [Some s]\<rparr>))"
  by (simp add: snprintf_def)

lemma strstr_bound: "strstr s n = Some i \<Longrightarrow> i + length n \<le> length s"
proof (induction s arbitrary: i)
  case Nil
  then show ?case by (simp split: if_splits)
next
  case (Cons c cs)
  show ?case
  proof (cases "prefix n (c # cs)")
    case True
    with Cons.prems show ?thesis by (auto dest: prefix_length_le)
  next
    case False
    with Cons.prems obtain k where "strstr cs n = Some k" "i = Suc k" by auto
    with Cons.IH show ?thesis by auto
  qed
qed

lemma strstr_skip:
  "CHR ''%'' \<notin> set pre \<Longrightarrow> strstr (pre @ CHR ''%'' # rest) (CHR ''%'' # n) =
     map_option (\<lambda>k. length pre + k) (strstr (CHR ''%'' # rest) (CHR ''%'' # n))"
proof (induction pre)
  case Nil
  then show ?case by (simp add: option.map_ident)
next
  case (Cons c pre)
  then show ?case by (simp add: option.map_comp comp_def)
qed

lemma strstr_none:
  "CHR ''%'' \<notin> set s \<Longrightarrow> strstr s (CHR ''%'' # n) = None"
  by (induction s) auto

lemma c_format_plain:
  "CHR ''%'' \<notin> set pre \<Longrightarrow> c_format (pre @ rest) args = emit pre (c_format rest args)"
proof (induction pre)
  case Nil
  then show ?case by (simp add: emit_def split: sum.splits)
next
  case (Cons c pre)
  then show ?case
    by (cases "pre @ rest") (auto simp: emit_def split: sum.splits)
qed

lemma c_format_plain_end: "CHR ''%'' \<notin> set s \<Longrightarrow> c_format s args = Inr s"
  using c_format_plain [of s "[]" args] by simp

lemma post_rejects:
  assumes src: "template_source w OAUTH_ENV_HTTPCMD (OAUTH_DEF_HTTPCMD B) = Some tpl"
    and miss: "strstr tpl ''%p'' = None \<or> strstr tpl ''%u'' = None"
  shows "oauth_exec_post B w u p =
     (Inr None, w\<lparr>heap := heap w @ [Some tpl],
                  stderr := stderr w @ diagnostic OAUTH_ENV_HTTPCMD\<rparr>)"
  using miss
  by (auto simp: oauth_exec_post_def clone_template_source [OF src] fprintf_stderr_def
      split: option.splits)

lemma post_runs:
  assumes src: "template_source w OAUTH_ENV_HTTPCMD (OAUTH_DEF_HTTPCMD B) = Some tpl"
    and p: "strstr tpl ''%p'' = Some i" and u: "strstr tpl ''%u'' = Some j"
  shows "oauth_exec_post B w u p =
     (if BUFSIZ B = 0 then
        (Inl Zero_size_buffer,
         w\<lparr>heap := heap w @ [Some (tpl[i + 1 := CHR ''s'', j + 1 := CHR ''s''])]\<rparr>)
      else
        case c_format (tpl[i + 1 := CHR ''s'', j + 1 := CHR ''s''])
               [if j < i then u else p, if j < i then p else u] of
          Inl f \<Rightarrow>
            (Inl f, w\<lparr>heap := heap w @ [Some (tpl[i + 1 := CHR ''s'', j + 1 := CHR ''s''])]\<rparr>)
        | Inr full \<Rightarrow>
            oauth_exec_shell (w\<lparr>heap := heap w @ [None]\<rparr>) (take (BUFSIZ B - 1) full))"
proof -
  from strstr_bound [OF p] have i: "i + 1 < length tpl" by simp
  from strstr_bound [OF u] have j: "j + 1 < length tpl" by simp
  show ?thesis
    using i j
    by (simp add: oauth_exec_post_def clone_template_source [OF src] p u Let_def
        snprintf_copy split: sum.splits)
qed

lemma post_formats:
  assumes src: "template_source w OAUTH_ENV_HTTPCMD (OAUTH_DEF_HTTPCMD B) = Some tpl"
    and p: "strstr tpl ''%p'' = Some i" and u: "strstr tpl ''%u'' = Some j"
    and n: "0 < BUFSIZ B"
    and full: "c_format (tpl[i + 1 := CHR ''s'', j + 1 := CHR ''s''])
               [if j < i then u else p, if j < i then p else u] = Inr full"
  shows "oauth_exec_post B w u p =
     oauth_exec_shell (w\<lparr>heap := heap w @ [None]\<rparr>) (take (BUFSIZ B - 1) full)"
  using n full by (simp add: post_runs [OF src p u])

lemma get_rejects:
  assumes src: "template_source w OAUTH_ENV_HTTPGET (OAUTH_DEF_HTTPGET B) = Some tpl"
    and miss: "strstr tpl ''%u'' = None"
  shows "oauth_exec_get B w (Some u) q =
     (Inr None, w\<lparr>heap := heap w @ [Some tpl],
                  stderr := stderr w @ diagnostic OAUTH_ENV_HTTPGET\<rparr>)"
  using miss
  by (simp add: oauth_exec_get_def clone_template_source [OF src] fprintf_stderr_def)

lemma takeWhile_to_NUL:
  "NUL \<notin> set a \<Longrightarrow> takeWhile (\<lambda>c. c \<noteq> NUL) (a @ NUL # rest) = a"
  by (induction a) auto

lemma strcat_at_NUL:
  "NUL \<notin> set a \<Longrightarrow>
   strcat (a @ NUL # rest) src =
     (if length src \<le> length rest then Inr ((a @ src) @ NUL # drop (length src) rest)
      else Inl Buffer_overrun)"
  by (simp add: strcat_def takeWhile_to_NUL)

lemma strcat_without_NUL:
  assumes "NUL \<notin> set blk"
  shows "strcat blk src = Inl Buffer_overrun"
proof -
  from assms have eq: "takeWhile (\<lambda>c. c \<noteq> NUL) blk = blk"
    by (induction blk) auto
  show ?thesis
    unfolding strcat_def Let_def eq by simp
qed

lemma c_str_at_NUL: "NUL \<notin> set a \<Longrightarrow> c_str (a @ NUL # rest) = Inr a"
  by (simp add: c_str_def takeWhile_to_NUL)

lemma query_url_block:
  assumes us: "NUL \<notin> set us" and qs: "NUL \<notin> set qs"
    and n: "length blk = length us + length qs + 2"
  shows "and_then (strcat blk us) (\<lambda>t1.
         and_then (strcat t1 ''?'') (\<lambda>t1.
         and_then (strcat t1 qs) c_str)) =
     (if hd blk = NUL then Inr (us @ ''?'' @ qs) else Inl Buffer_overrun)"
proof (cases "NUL \<in> set blk")
  case False
  with n have "hd blk \<noteq> NUL" by (cases blk) auto
  with False show ?thesis by (simp add: strcat_without_NUL)
next
  case True
  then obtain a rest where blk: "blk = a @ NUL # rest" and a: "NUL \<notin> set a"
    by (auto dest: split_list_first)
  from n blk have len: "length a + length rest = length us + length qs + 1" by simp
  have q: "NUL \<notin> set ''?''" by (simp add: NUL_def)
  show ?thesis
  proof (cases a)
    case Nil
    with len have rest: "length rest = length us + length qs + 1" by simp
    have "strcat blk us = Inr (us @ NUL # drop (length us) rest)"
      using rest by (simp add: blk Nil strcat_at_NUL [of "[]", simplified])
    moreover have "strcat (us @ NUL # drop (length us) rest) ''?'' =
        Inr ((us @ ''?'') @ NUL # drop 1 (drop (length us) rest))"
      using rest us by (simp add: strcat_at_NUL)
    moreover have "strcat ((us @ ''?'') @ NUL # drop 1 (drop (length us) rest)) qs =
        Inr ((us @ ''?'' @ qs) @ NUL # drop (length qs) (drop 1 (drop (length us) rest)))"
      using rest us q strcat_at_NUL [of "us @ ''?''" "drop 1 (drop (length us) rest)" qs]
      by simp
    moreover have "c_str ((us @ ''?'' @ qs) @ NUL # drop (length qs) (drop 1 (drop (length us) rest)))
        = Inr (us @ ''?'' @ qs)"
      using us qs q by (intro c_str_at_NUL) simp
    ultimately show ?thesis by (simp add: blk Nil)
  next
    case (Cons c cs)
    with a have hd: "hd blk \<noteq> NUL" by (auto simp: blk)
    let ?chain = "and_then (strcat blk us) (\<lambda>t1.
         and_then (strcat t1 ''?'') (\<lambda>t1.
         and_then (strcat t1 qs) c_str))"
    define rest1 where "rest1 = drop (length us) rest"
    define rest2 where "rest2 = drop 1 rest1"
    have a1: "NUL \<notin> set (a @ us)" using a us by simp
    have a2: "NUL \<notin> set ((a @ us) @ ''?'')" using a1 q by simp
    have s1: "strcat blk us =
        (if length us \<le> length rest then Inr ((a @ us) @ NUL # rest1) else Inl Buffer_overrun)"
      unfolding blk rest1_def by (rule strcat_at_NUL [OF a])
    have s2: "strcat ((a @ us) @ NUL # rest1) ''?'' =
        (if length ''?'' \<le> length rest1 then Inr (((a @ us) @ ''?'') @ NUL # rest2)
         else Inl Buffer_overrun)"
      unfolding rest2_def using strcat_at_NUL [OF a1, of rest1 "''?''"] by simp
    have s3: "strcat (((a @ us) @ ''?'') @ NUL # rest2) qs = Inl Buffer_overrun"
      if "length us \<le> length rest" and "length ''?'' \<le> length rest1"
    proof -
      have "\<not> length qs \<le> length rest2"
        using len Cons that by (simp add: rest1_def rest2_def)
      then show ?thesis
        by (simp only: strcat_at_NUL [OF a2] if_False)
    qed
    have "?chain = Inl Buffer_overrun"
    proof (cases "length us \<le> length rest")
      case False
      then show ?thesis by (simp only: s1 if_False and_then_Inl)
    next
      case fits1: True
      show ?thesis
      proof (cases "length ''?'' \<le> length rest1")
        case False
        with fits1 show ?thesis
          by (simp only: s1 s2 if_True if_False and_then_Inr and_then_Inl)
      next
        case True
        with fits1 s3 show ?thesis
          by (simp only: s1 s2 if_True and_then_Inr and_then_Inl)
      qed
    qed
    with hd show ?thesis by simp
  qed
qed

lemma hd_xmalloc: "0 < n \<Longrightarrow> hd (xmalloc w n) = uninit w 0"
  by (simp add: xmalloc_def hd_map upt_conv_Cons)

lemma url_argument_heap [simp]: "url_argument (w\<lparr>heap := h\<rparr>) us q = url_argument w us q"
  by (cases q) (simp_all add: url_argument_def xmalloc_def)

lemma url_argument_None [simp]: "url_argument w us None = Inr us"
  by (simp add: url_argument_def)

lemma url_argument_Some:
  assumes us: "NUL \<notin> set us" and qs: "NUL \<notin> set qs"
  shows "url_argument w us (Some qs) =
     (if uninit w 0 = NUL then Inr (us @ ''?'' @ qs) else Inl Buffer_overrun)"
proof -
  let ?blk = "xmalloc w (length us + length qs + 2)"
  have blk: "length ?blk = length us + length qs + 2"
    by (simp add: xmalloc_def)
  have hd: "hd ?blk = uninit w 0"
    by (simp add: hd_xmalloc)
  show ?thesis
    unfolding url_argument_def option.case query_url_block [OF us qs blk] hd ..
qed

lemma get_runs:
  assumes src: "template_source w OAUTH_ENV_HTTPGET (OAUTH_DEF_HTTPGET B) = Some tpl"
    and u: "strstr tpl ''%u'' = Some i"
  shows "oauth_exec_get B w (Some us) q =
     (case url_argument w us q of
        Inl f \<Rightarrow> (Inl f, w\<lparr>heap := heap w @ [Some (tpl[i + 1 := CHR ''s''])]\<rparr>)
      | Inr arg \<Rightarrow>
          if BUFSIZ B = 0 then
            (Inl Zero_size_buffer, w\<lparr>heap := heap w @ [Some (tpl[i + 1 := CHR ''s''])]\<rparr>)
          else
            case c_format (tpl[i + 1 := CHR ''s'']) [Some arg] of
              Inl f \<Rightarrow> (Inl f, w\<lparr>heap := heap w @ [Some (tpl[i + 1 := CHR ''s''])]\<rparr>)
            | Inr full \<Rightarrow>
                oauth_exec_shell (w\<lparr>heap := heap w @ [None]\<rparr>) (take (BUFSIZ B - 1) full))"
proof -
  from strstr_bound [OF u] have i: "i + 1 < length tpl" by simp
  show ?thesis
    using i
    by (simp add: oauth_exec_get_def clone_template_source [OF src] u snprintf_copy lift_def
        split: sum.splits)
qed

lemma get_formats:
  assumes src: "template_source w OAUTH_ENV_HTTPGET (OAUTH_DEF_HTTPGET B) = Some tpl"
    and u: "strstr tpl ''%u'' = Some i"
    and n: "0 < BUFSIZ B"
    and arg: "url_argument w us q = Inr arg"
    and full: "c_format (tpl[i + 1 := CHR ''s'']) [Some arg] = Inr full"
  shows "oauth_exec_get B w (Some us) q =
     oauth_exec_shell (w\<lparr>heap := heap w @ [None]\<rparr>) (take (BUFSIZ B - 1) full)"
  using n arg full by (simp add: get_runs [OF src u])

lemma length_xmalloc [simp]: "length (xmalloc w n) = n"
  by (simp add: xmalloc_def)

lemma length_xrealloc [simp]: "length (xrealloc w p n) = n"
  by (cases p) (auto simp: xrealloc_def)

lemma capture_step_safe:
  "\<exists>blk. capture_step w st =
     Inr \<lparr>inp = \<lparr>pending = drop 1024 (pending (inp st)),
                 at_eof = (at_eof (inp st) \<or> length (pending (inp st)) < 1024)\<rparr>,
          len = len st + min (length (pending (inp st))) 1024,
          alloc = alloc st + 1024,
          data = Some blk,
          rcv = int (min (length (pending (inp st))) 1024)\<rparr> \<and>
     length blk = alloc st + 1024"
  by (simp add: capture_step_def fread_def Let_def)

lemma capture_loop_total: "\<exists>st'. capture_loop w st = Inr st'"
proof (induction w st rule: capture_loop.induct)
  case (1 w st)
  show ?case
  proof (cases "rcv st > 0 \<and> \<not> feof (inp st)")
    case False
    then show ?thesis by (subst capture_loop.simps) auto
  next
    case True
    from capture_step_safe [of w st] obtain st1 where st1: "capture_step w st = Inr st1"
      by blast
    from "1.IH" [OF True st1] obtain st' where "capture_loop w st1 = Inr st'" by blast
    with True st1 show ?thesis by (subst capture_loop.simps) simp
  qed
qed

lemma capture_short:
  assumes "length out < 1024"
  shows "capture_loop w (capture_start out) =
     Inr \<lparr>inp = \<lparr>pending = [], at_eof = True\<rparr>, len = length out, alloc = 1024,
          data = Some (out @ drop (length out) (xmalloc w 1024)), rcv = int (length out)\<rparr>"
  using assms
  by (simp add: capture_loop.simps [of w "capture_start out"]
      capture_loop.simps [of w "\<lparr>inp = _, len = _, alloc = _, data = _, rcv = _\<rparr>"]
      capture_start_def capture_step_def fread_def feof_def xrealloc_def Let_def)

lemma shell_popen_calls:
  "popen_calls (snd (oauth_exec_shell w cmd)) = popen_calls w @ [cmd]"
proof (cases "child_stdout w cmd")
  case None
  then show ?thesis by (simp add: oauth_exec_shell_def)
next
  case (Some out)
  obtain st where "capture_loop (w\<lparr>popen_calls := popen_calls w @ [cmd]\<rparr>) (capture_start out) = Inr st"
    using capture_loop_total by blast
  with Some show ?thesis
    by (simp add: oauth_exec_shell_def lift_def Let_def split: option.splits)
qed

lemma shell_frame:
  "environ (snd (oauth_exec_shell w cmd)) = environ w \<and>
   heap (snd (oauth_exec_shell w cmd)) = heap w \<and>
   stderr (snd (oauth_exec_shell w cmd)) = stderr w"
proof (cases "child_stdout w cmd")
  case None
  then show ?thesis by (simp add: oauth_exec_shell_def)
next
  case (Some out)
  obtain st where "capture_loop (w\<lparr>popen_calls := popen_calls w @ [cmd]\<rparr>) (capture_start out) = Inr st"
    using capture_loop_total by blast
  with Some show ?thesis
    by (simp add: oauth_exec_shell_def lift_def Let_def split: option.splits)
qed

lemma xmalloc_popen_calls [simp]: "xmalloc (w\<lparr>popen_calls := c\<rparr>) n = xmalloc w n"
  by (simp add: xmalloc_def)

lemma shell_short_output:
  assumes out: "child_stdout w cmd = Some out" and short: "length out < 1024"
  shows "oauth_exec_shell w cmd =
     (Inr (Some (out @ NUL # drop (Suc (length out)) (xmalloc w 1024))),
      w\<lparr>popen_calls := popen_calls w @ [cmd]\<rparr>)"
proof -
  from short have "drop (length out) (xmalloc w 1024) =
      xmalloc w 1024 ! length out # drop (Suc (length out)) (xmalloc w 1024)"
    by (simp add: Cons_nth_drop_Suc)
  then have "(out @ drop (length out) (xmalloc w 1024))[length out := NUL] =
      out @ NUL # drop (Suc (length out)) (xmalloc w 1024)"
    by (simp add: list_update_append)
  then show ?thesis
    using short
    by (simp add: oauth_exec_shell_def out lift_def capture_short Let_def)
qed

lemma strstr_None_iff: "strstr s n = None \<longleftrightarrow> \<not> sublist n s"
  by (induction s) (auto simp: sublist_Cons_right)

lemma demo_sources [simp]:
  "template_source (demo_world pt gt out) OAUTH_ENV_HTTPCMD def = Some pt"
  "template_source (demo_world pt gt out) OAUTH_ENV_HTTPGET def = Some gt"
  by (simp_all add: template_source_def demo_world_def demo_environ_def
      OAUTH_ENV_HTTPCMD_def OAUTH_ENV_HTTPGET_def)

lemma post_never_returns_untouched: "oauth_exec_post B w u p \<noteq> (Inr None, w)"
proof (cases "template_source w OAUTH_ENV_HTTPCMD (OAUTH_DEF_HTTPCMD B)")
  case None
  then have "clone_template w OAUTH_ENV_HTTPCMD (OAUTH_DEF_HTTPCMD B) = (Inl Invalid_pointer, w)"
    by (auto simp: template_source_def clone_template_def getenv_def load_def
        split: option.splits if_splits)
  then show ?thesis by (simp add: oauth_exec_post_def)
next
  case (Some tpl)
  have grow: "w' \<noteq> w" if "length (heap w') = Suc (length (heap w))" for w'
    using that by auto
  show ?thesis
  proof (cases "strstr tpl ''%p'' = None \<or> strstr tpl ''%u'' = None")
    case True
    show ?thesis
      unfolding post_rejects [OF Some True] using grow by simp
  next
    case False
    then obtain i j where i: "strstr tpl ''%p'' = Some i" and j: "strstr tpl ''%u'' = Some j"
      by auto
    have "heap (snd (oauth_exec_shell (w\<lparr>heap := heap w @ [None]\<rparr>) cmd)) = heap w @ [None]"
      for cmd
      using shell_frame [of "w\<lparr>heap := heap w @ [None]\<rparr>"] by simp
    then have "snd (oauth_exec_shell (w\<lparr>heap := heap w @ [None]\<rparr>) cmd) \<noteq> w" for cmd
      using grow by simp
    then have "oauth_exec_shell (w\<lparr>heap := heap w @ [None]\<rparr>) cmd \<noteq> (Inr None, w)" for cmd
      by (metis snd_conv)
    then show ?thesis
      by (simp add: post_runs [OF Some i j] split: sum.splits)
  qed
qed

lemma strstr_first:
  "CHR ''%'' \<notin> set pre \<Longrightarrow> strstr (pre @ CHR ''%'' # c # rest) [CHR ''%'', c] = Some (length pre)"
  by (simp add: strstr_skip)

lemma strstr_second:
  assumes "CHR ''%'' \<notin> set pre" "CHR ''%'' \<notin> set mid" "c \<noteq> d" "c \<noteq> CHR ''%''"
  shows "strstr (pre @ CHR ''%'' # c # mid @ CHR ''%'' # d # rest) [CHR ''%'', d] =
     Some (length pre + 2 + length mid)"
proof -
  have "strstr (mid @ CHR ''%'' # d # rest) [CHR ''%'', d] = Some (length mid)"
    using assms(2) by (rule strstr_first)
  then have "strstr (CHR ''%'' # c # mid @ CHR ''%'' # d # rest) [CHR ''%'', d] =
      Some (2 + length mid)"
    using assms(3,4) by simp
  then show ?thesis
    using assms(1) strstr_skip [of pre "c # mid @ CHR ''%'' # d # rest" "[d]"] by simp
qed

lemma c_format_two_slots:
  assumes "CHR ''%'' \<notin> set pre" "CHR ''%'' \<notin> set mid" "CHR ''%'' \<notin> set post"
  shows "c_format (pre @ ''%s'' @ mid @ ''%s'' @ post) [Some a, Some b] =
     Inr (pre @ a @ mid @ b @ post)"
proof -
  have "c_format (''%s'' @ post) [Some b] = Inr (b @ post)"
    using assms(3) by (cases post) (simp_all add: c_format_plain_end)
  then have "c_format (mid @ ''%s'' @ post) [Some b] = Inr (mid @ b @ post)"
    using assms(2) by (simp add: c_format_plain)
  then have "c_format (''%s'' @ mid @ ''%s'' @ post) [Some a, Some b] =
      Inr (a @ mid @ b @ post)"
    by simp
  then show ?thesis
    using assms(1) by (simp add: c_format_plain)
qed

lemma post_url_first:
  assumes src: "template_source w OAUTH_ENV_HTTPCMD (OAUTH_DEF_HTTPCMD B) =
      Some (pre @ ''%u'' @ mid @ ''%p'' @ post)"
    and n: "0 < BUFSIZ B"
    and plain: "CHR ''%'' \<notin> set pre" "CHR ''%'' \<notin> set mid" "CHR ''%'' \<notin> set post"
  shows "oauth_exec_post B w (Some u) (Some p) =
     oauth_exec_shell (w\<lparr>heap := heap w @ [None]\<rparr>)
       (take (BUFSIZ B - 1) (pre @ u @ mid @ p @ post))"
proof -
  let ?tpl = "pre @ ''%u'' @ mid @ ''%p'' @ post"
  have j: "strstr ?tpl ''%u'' = Some (length pre)"
    using plain(1) strstr_first [of pre "CHR ''u''"] by simp
  have i: "strstr ?tpl ''%p'' = Some (length pre + 2 + length mid)"
    using plain(1,2) strstr_second [of pre mid "CHR ''u''" "CHR ''p''" post] by simp
  have upd: "?tpl[length pre + 2 + length mid + 1 := CHR ''s'', length pre + 1 := CHR ''s''] =
      pre @ ''%s'' @ mid @ ''%s'' @ post"
    by (simp add: list_update_append)
  have "c_format (?tpl[length pre + 2 + length mid + 1 := CHR ''s'', length pre + 1 := CHR ''s''])
      [if length pre < length pre + 2 + length mid then Some u else Some p,
       if length pre < length pre + 2 + length mid then Some p else Some u] =
      Inr (pre @ u @ mid @ p @ post)"
    unfolding upd using c_format_two_slots [OF plain] by simp
  from post_formats [OF src i j n this] show ?thesis .
qed

lemma post_body_first:
  assumes src: "template_source w OAUTH_ENV_HTTPCMD (OAUTH_DEF_HTTPCMD B) =
      Some (pre @ ''%p'' @ mid @ ''%u'' @ post)"
    and n: "0 < BUFSIZ B"
    and plain: "CHR ''%'' \<notin> set pre" "CHR ''%'' \<notin> set mid" "CHR ''%'' \<notin> set post"
  shows "oauth_exec_post B w (Some u) (Some p) =
     oauth_exec_shell (w\<lparr>heap := heap w @ [None]\<rparr>)
       (take (BUFSIZ B - 1) (pre @ p @ mid @ u @ post))"
proof -
  let ?tpl = "pre @ ''%p'' @ mid @ ''%u'' @ post"
  have i: "strstr ?tpl ''%p'' = Some (length pre)"
    using plain(1) strstr_first [of pre "CHR ''p''"] by simp
  have j: "strstr ?tpl ''%u'' = Some (length pre + 2 + length mid)"
    using plain(1,2) strstr_second [of pre mid "CHR ''p''" "CHR ''u''" post] by simp
  have upd: "?tpl[length pre + 1 := CHR ''s'', length pre + 2 + length mid + 1 := CHR ''s''] =
      pre @ ''%s'' @ mid @ ''%s'' @ post"
    by (simp add: list_update_append)
  have "c_format (?tpl[length pre + 1 := CHR ''s'', length pre + 2 + length mid + 1 := CHR ''s''])
      [if length pre + 2 + length mid < length pre then Some u else Some p,
       if length pre + 2 + length mid < length pre then Some p else Some u] =
      Inr (pre @ p @ mid @ u @ post)"
    unfolding upd using c_format_two_slots [OF plain] by simp
  from post_formats [OF src i j n this] show ?thesis .
qed

lemma capture_first_round:
  assumes "1024 \<le> length out"
  shows "capture_loop w (capture_start out) =
     capture_loop w \<lparr>inp = \<lparr>pending = drop 1024 out, at_eof = False\<rparr>, len = 1024,
       alloc = 1024, data = Some (take 1024 out), rcv = 1024\<rparr>"
proof -
  have step: "capture_step w (capture_start out) =
      Inr \<lparr>inp = \<lparr>pending = drop 1024 out, at_eof = False\<rparr>, len = 1024,
       alloc = 1024, data = Some (take 1024 out), rcv = 1024\<rparr>"
    using assms
    by (simp add: capture_start_def capture_step_def fread_def xrealloc_def Let_def min_def)
  have "capture_loop w (capture_start out) =
      (case capture_step w (capture_start out) of
         Inl f \<Rightarrow> Inl f | Inr st' \<Rightarrow> capture_loop w st')"
    by (subst capture_loop.simps) (simp add: capture_start_def feof_def)
  then show ?thesis
    by (simp add: step)
qed

lemma capture_last_round:
  assumes "length rest < 1024" and "length blk = a"
  shows "capture_loop w \<lparr>inp = \<lparr>pending = rest, at_eof = False\<rparr>, len = n,
       alloc = a, data = Some blk, rcv = 1024\<rparr> =
     Inr \<lparr>inp = \<lparr>pending = [], at_eof = True\<rparr>, len = n + length rest, alloc = a + 1024,
       data = Some (rest @ drop (length rest) (blk @ map (uninit w) [a..<a + 1024])),
       rcv = int (length rest)\<rparr>"
  using assms
  by (simp add: capture_loop.simps [of w "\<lparr>inp = _, len = _, alloc = _, data = _, rcv = _\<rparr>"]
      capture_step_def fread_def feof_def xrealloc_def Let_def)

lemma shell_two_rounds:
  assumes out: "child_stdout w cmd = Some out"
    and lo: "1024 \<le> length out" and hi: "length out < 2048"
  shows "oauth_exec_shell w cmd =
     (Inr (Some ((drop 1024 out @ drop (length out - 1024) (take 1024 out) @
                  map (uninit w) [1024..<2048])[length out := NUL])),
      w\<lparr>popen_calls := popen_calls w @ [cmd]\<rparr>)"
proof -
  let ?w = "w\<lparr>popen_calls := popen_calls w @ [cmd]\<rparr>"
  have rest: "length (drop 1024 out) < 1024" using hi by simp
  have blk: "length (take 1024 out) = 1024" using lo by simp
  have "capture_loop ?w (capture_start out) =
     Inr \<lparr>inp = \<lparr>pending = [], at_eof = True\<rparr>, len = 1024 + length (drop 1024 out),
       alloc = 1024 + 1024,
       data = Some (drop 1024 out @ drop (length (drop 1024 out))
         (take 1024 out @ map (uninit ?w) [1024..<1024 + 1024])),
       rcv = int (length (drop 1024 out))\<rparr>"
    unfolding capture_first_round [OF lo] by (rule capture_last_round [OF rest blk])
  then show ?thesis
    using lo hi by (simp add: oauth_exec_shell_def out lift_def Let_def)
qed

lemma clone_template_fails:
  assumes "template_source w var def = None"
  shows "clone_template w var def = (Inl Invalid_pointer, w)"
  using assms
  by (auto simp: template_source_def clone_template_def getenv_def load_def
      split: option.splits if_splits)

lemma post_keeps_sources:
  "environ (snd (oauth_exec_post B w u p)) = environ w \<and>
   take (length (heap w)) (heap (snd (oauth_exec_post B w u p))) = heap w"
proof (cases "template_source w OAUTH_ENV_HTTPCMD (OAUTH_DEF_HTTPCMD B)")
  case None
  then show ?thesis
    by (simp add: oauth_exec_post_def clone_template_fails)
next
  case (Some tpl)
  show ?thesis
  proof (cases "strstr tpl ''%p'' = None \<or> strstr tpl ''%u'' = None")
    case True
    show ?thesis
      by (simp add: post_rejects [OF Some True])
  next
    case False
    then obtain i j where i: "strstr tpl ''%p'' = Some i" and j: "strstr tpl ''%u'' = Some j"
      by auto
    have "environ (snd (oauth_exec_shell (w\<lparr>heap := heap w @ [None]\<rparr>) cmd)) = environ w \<and>
        heap (snd (oauth_exec_shell (w\<lparr>heap := heap w @ [None]\<rparr>) cmd)) = heap w @ [None]"
      for cmd
      using shell_frame [of "w\<lparr>heap := heap w @ [None]\<rparr>"] by simp
    then show ?thesis
      by (simp add: post_runs [OF Some i j] split: sum.splits)
  qed
qed

lemma get_keeps_sources:
  "environ (snd (oauth_exec_get B w u q)) = environ w \<and>
   take (length (heap w)) (heap (snd (oauth_exec_get B w u q))) = heap w"
proof (cases u)
  case None
  then show ?thesis by (simp add: oauth_exec_get_def)
next
  case u: (Some us)
  show ?thesis
  proof (cases "template_source w OAUTH_ENV_HTTPGET (OAUTH_DEF_HTTPGET B)")
    case None
    then show ?thesis
      by (simp add: u oauth_exec_get_def clone_template_fails)
  next
    case (Some tpl)
    show ?thesis
    proof (cases "strstr tpl ''%u''")
      case None
      show ?thesis
        by (simp add: u get_rejects [OF Some None])
    next
      case i: (Some i)
      have "environ (snd (oauth_exec_shell (w\<lparr>heap := heap w @ [None]\<rparr>) cmd)) = environ w \<and>
          heap (snd (oauth_exec_shell (w\<lparr>heap := heap w @ [None]\<rparr>) cmd)) = heap w @ [None]"
        for cmd
        using shell_frame [of "w\<lparr>heap := heap w @ [None]\<rparr>"] by simp
      then show ?thesis
        by (simp add: u get_runs [OF Some i] split: sum.splits)
    qed
  qed
qed

lemma template_source_kept:
  assumes env: "environ w' = environ w"
    and pre: "take (length (heap w)) (heap w') = heap w"
    and live: "template_source w var def = Some tpl"
  shows "template_source w' var def = Some tpl"
proof (cases "environ w var")
  case None
  with env live show ?thesis by (simp add: template_source_def)
next
  case (Some e)
  with live have e: "e < length (heap w)" and at: "heap w ! e = Some tpl"
    by (auto simp: template_source_def split: if_splits)
  have "length (take (length (heap w)) (heap w')) = length (heap w)"
    by (simp only: pre)
  then have "length (heap w) \<le> length (heap w')"
    by simp
  moreover from pre e have "heap w' ! e = heap w ! e"
    by (metis nth_take)
  ultimately show ?thesis
    using Some env e at by (simp add: template_source_def)
qed

lemma post_keeps_template:
  "template_source (snd (oauth_exec_post B w u p)) OAUTH_ENV_HTTPCMD (OAUTH_DEF_HTTPCMD B) =
   template_source w OAUTH_ENV_HTTPCMD (OAUTH_DEF_HTTPCMD B)"
proof (cases "template_source w OAUTH_ENV_HTTPCMD (OAUTH_DEF_HTTPCMD B)")
  case None
  then show ?thesis
    by (simp add: oauth_exec_post_def clone_template_fails)
next
  case (Some tpl)
  from template_source_kept [OF _ _ Some, of "snd (oauth_exec_post B w u p)"]
    post_keeps_sources [of B w u p] Some
  show ?thesis by simp
qed

lemma get_keeps_template:
  "template_source (snd (oauth_exec_get B w u q)) OAUTH_ENV_HTTPGET (OAUTH_DEF_HTTPGET B) =
   template_source w OAUTH_ENV_HTTPGET (OAUTH_DEF_HTTPGET B)"
proof (cases "template_source w OAUTH_ENV_HTTPGET (OAUTH_DEF_HTTPGET B)")
  case None
  then show ?thesis
    by (cases u) (simp_all add: oauth_exec_get_def clone_template_fails)
next
  case (Some tpl)
  from template_source_kept [OF _ _ Some, of "snd (oauth_exec_get B w u q)"]
    get_keeps_sources [of B w u q] Some
  show ?thesis by simp
qed

lemma diagnostic_names_variable: "sublist var (diagnostic var)"
  unfolding diagnostic_def sublist_def by (metis append.assoc)

lemma capture_step_result:
  "capture_step w st =
     Inr \<lparr>inp = \<lparr>pending = drop 1024 (pending (inp st)),
                 at_eof = (at_eof (inp st) \<or> length (pending (inp st)) < 1024)\<rparr>,
          len = len st + min (length (pending (inp st))) 1024,
          alloc = alloc st + 1024,
          data = Some (take 1024 (pending (inp st)) @
                   drop (min (length (pending (inp st))) 1024)
                     (xrealloc w (data st) (alloc st + 1024))),
          rcv = int (min (length (pending (inp st))) 1024)\<rparr>"
  by (simp add: capture_step_def fread_def Let_def)

lemma capture_step_inv:
  assumes "\<not> at_eof (inp st)" and "len st \<le> alloc st"
  shows "\<exists>st'. capture_step w st = Inr st' \<and> capture_inv st'"
  using assms unfolding capture_step_result
  by (auto simp: capture_inv_def min_def)

lemma capture_inv_len: "capture_inv st \<Longrightarrow> len st \<le> alloc st"
  by (auto simp: capture_inv_def)

lemma capture_loop_inv:
  "capture_inv st \<Longrightarrow> capture_loop w st = Inr st' \<Longrightarrow>
   capture_inv st' \<and> \<not> (rcv st' > 0 \<and> \<not> feof (inp st'))"
proof (induction w st rule: capture_loop.induct)
  case (1 w st)
  show ?case
  proof (cases "rcv st > 0 \<and> \<not> feof (inp st)")
    case False
    with "1.prems" show ?thesis
      by (simp add: capture_loop.simps [of w st])
  next
    case True
    then have "\<not> at_eof (inp st)" by (simp add: feof_def)
    from capture_step_inv [OF this capture_inv_len [OF "1.prems"(1)], of w]
    obtain st1 where st1: "capture_step w st = Inr st1" and inv1: "capture_inv st1"
      by blast
    from "1.prems"(2) True st1 have "capture_loop w st1 = Inr st'"
      by (simp add: capture_loop.simps [of w st])
    from "1.IH" [OF True st1 inv1 this] show ?thesis .
  qed
qed

lemma capture_from_start:
  "\<exists>st' blk. capture_loop w (capture_start out) = Inr st' \<and>
     data st' = Some blk \<and> length blk = alloc st' \<and> 1024 \<le> alloc st' \<and> len st' < alloc st'"
proof -
  have run: "rcv (capture_start out) > 0 \<and> \<not> feof (inp (capture_start out))"
    by (simp add: capture_start_def feof_def)
  have "\<not> at_eof (inp (capture_start out))" "len (capture_start out) \<le> alloc (capture_start out)"
    by (simp_all add: capture_start_def)
  from capture_step_inv [OF this, of w]
  obtain st1 where st1: "capture_step w (capture_start out) = Inr st1" and inv1: "capture_inv st1"
    by blast
  obtain st' where fin: "capture_loop w st1 = Inr st'"
    using capture_loop_total by blast
  from capture_loop_inv [OF inv1 fin]
  have inv: "capture_inv st'" and stop: "\<not> (rcv st' > 0 \<and> \<not> feof (inp st'))"
    by simp_all
  from inv obtain blk where blk: "data st' = Some blk" "length blk = alloc st'"
    by (auto simp: capture_inv_def split: option.splits)
  from inv stop have "len st' < alloc st'" "1024 \<le> alloc st'"
    by (auto simp: capture_inv_def feof_def split: if_splits)
  moreover from run st1 fin have "capture_loop w (capture_start out) = Inr st'"
    by (simp add: capture_loop.simps [of w "capture_start out"])
  ultimately show ?thesis using blk by blast
qed

section \<open>The claims\<close>

text \<open>
  Claim C1 says that every POST template containing \<^verbatim>\<open>%u\<close> and \<^verbatim>\<open>%p\<close> gets the
  URL in the place of \<^verbatim>\<open>%u\<close> and the body in the place of \<^verbatim>\<open>%p\<close>. What holds:
  when the two placeholders carry the only percent signs of the template (the check the
  source's TODO comment asks for), the command handed to \<^verbatim>\<open>popen\<close> is the first
  \<open>BUFSIZ - 1\<close> characters of the template with the URL where \<^verbatim>\<open>%u\<close> stood and the
  body where \<^verbatim>\<open>%p\<close> stood, in either order of the two; the placeholders are gone.
\<close>

theorem post_fills_slots_in_template_order:
  assumes "template_source w OAUTH_ENV_HTTPCMD (OAUTH_DEF_HTTPCMD B) = Some tpl"
    and "0 < BUFSIZ B"
    and "CHR ''%'' \<notin> set pre" and "CHR ''%'' \<notin> set mid" and "CHR ''%'' \<notin> set post"
  shows "(tpl = pre @ ''%u'' @ mid @ ''%p'' @ post \<longrightarrow>
            oauth_exec_post B w (Some u) (Some p) =
              oauth_exec_shell (w\<lparr>heap := heap w @ [None]\<rparr>)
                (take (BUFSIZ B - 1) (pre @ u @ mid @ p @ post)) \<and>
            popen_calls (snd (oauth_exec_post B w (Some u) (Some p))) =
              popen_calls w @ [take (BUFSIZ B - 1) (pre @ u @ mid @ p @ post)]) \<and>
         (tpl = pre @ ''%p'' @ mid @ ''%u'' @ post \<longrightarrow>
            oauth_exec_post B w (Some u) (Some p) =
              oauth_exec_shell (w\<lparr>heap := heap w @ [None]\<rparr>)
                (take (BUFSIZ B - 1) (pre @ p @ mid @ u @ post)) \<and>
            popen_calls (snd (oauth_exec_post B w (Some u) (Some p))) =
              popen_calls w @ [take (BUFSIZ B - 1) (pre @ p @ mid @ u @ post)])"
  using assms post_url_first [of w B pre mid post u p] post_body_first [of w B pre mid post u p]
  by (simp add: shell_popen_calls)

theorem post_fills_slots_in_template_order_witness:
  "template_source (demo_world ''echo %p %u'' [] (Some [])) OAUTH_ENV_HTTPCMD
      (OAUTH_DEF_HTTPCMD demo_build) = Some (''echo '' @ ''%p'' @ '' '' @ ''%u'' @ []) \<and>
   template_source (demo_world ''echo %u %p'' [] (Some [])) OAUTH_ENV_HTTPCMD
      (OAUTH_DEF_HTTPCMD demo_build) = Some (''echo '' @ ''%u'' @ '' '' @ ''%p'' @ []) \<and>
   0 < BUFSIZ demo_build \<and>
   CHR ''%'' \<notin> set ''echo '' \<and> CHR ''%'' \<notin> set '' '' \<and> CHR ''%'' \<notin> set [] \<and>
   popen_calls (snd (oauth_exec_post demo_build (demo_world ''echo %p %u'' [] (Some []))
      (Some ''U'') (Some ''B''))) = [''echo B U''] \<and>
   popen_calls (snd (oauth_exec_post demo_build (demo_world ''echo %u %p'' [] (Some []))
      (Some ''U'') (Some ''B''))) = [''echo U B'']"
proof -
  have body_first: "template_source (demo_world ''echo %p %u'' [] (Some [])) OAUTH_ENV_HTTPCMD
      (OAUTH_DEF_HTTPCMD demo_build) = Some ''echo %p %u''"
    by simp
  have url_first: "template_source (demo_world ''echo %u %p'' [] (Some [])) OAUTH_ENV_HTTPCMD
      (OAUTH_DEF_HTTPCMD demo_build) = Some ''echo %u %p''"
    by simp
  have n: "0 < BUFSIZ demo_build"
    by (simp add: demo_build_def)
  have plain: "CHR ''%'' \<notin> set ''echo ''" "CHR ''%'' \<notin> set '' ''" "CHR ''%'' \<notin> set []"
    by simp_all
  from post_fills_slots_in_template_order [OF body_first n plain, of "''U''" "''B''"]
  have b: "popen_calls (snd (oauth_exec_post demo_build (demo_world ''echo %p %u'' [] (Some []))
      (Some ''U'') (Some ''B''))) = [''echo B U'']"
    by (simp add: demo_world_def demo_build_def shell_popen_calls)
  from post_fills_slots_in_template_order [OF url_first n plain, of "''U''" "''B''"]
  have u: "popen_calls (snd (oauth_exec_post demo_build (demo_world ''echo %u %p'' [] (Some []))
      (Some ''U'') (Some ''B''))) = [''echo U B'']"
    by (simp add: demo_world_def demo_build_def shell_popen_calls)
  from body_first url_first n plain b u show ?thesis by simp
qed

text \<open>
  The template \<^verbatim>\<open>%%u %p\<close> contains both placeholders. The code turns it into the
  format \<^verbatim>\<open>%%s %s\<close>, whose only conversion stands where \<^verbatim>\<open>%p\<close> was and receives
  the first argument, the URL; the body is not printed at all.
\<close>

theorem post_escaped_percent_counterexample:
  "template_source (demo_world ''%%u %p'' [] (Some [])) OAUTH_ENV_HTTPCMD
      (OAUTH_DEF_HTTPCMD demo_build) = Some (''%'' @ ''%u'' @ '' '' @ ''%p'' @ []) \<and>
   popen_calls (snd (oauth_exec_post demo_build (demo_world ''%%u %p'' [] (Some []))
      (Some ''U'') (Some ''B''))) = [''%s U''] \<and>
   ''%s U'' \<noteq> ''%'' @ ''U'' @ '' '' @ ''B'' @ []"
proof -
  have src: "template_source (demo_world ''%%u %p'' [] (Some [])) OAUTH_ENV_HTTPCMD
      (OAUTH_DEF_HTTPCMD demo_build) = Some ''%%u %p''"
    by simp
  have i: "strstr ''%%u %p'' ''%p'' = Some 4" by simp
  have j: "strstr ''%%u %p'' ''%u'' = Some 1" by simp
  have n: "0 < BUFSIZ demo_build" by (simp add: demo_build_def)
  have f: "c_format (''%%u %p''[4 + 1 := CHR ''s'', 1 + 1 := CHR ''s''])
      [if (1::nat) < 4 then Some ''U'' else Some ''B'', if (1::nat) < 4 then Some ''B'' else Some ''U'']
      = Inr ''%s U''"
    by simp
  from post_formats [OF src i j n f] src show ?thesis
    by (simp add: shell_popen_calls demo_world_def demo_build_def)
qed

text \<open>
  Claim C2 asks for a failure when the formatted command does not fit the buffer. The
  code has no such failure: \<^verbatim>\<open>snprintf\<close> stores the first \<open>BUFSIZ - 1\<close> characters,
  and that shorter command is run, for POST and for GET alike.
\<close>

theorem overlong_command_is_cut_and_run:
  assumes "0 < BUFSIZ B" and "BUFSIZ B \<le> length full"
  shows "(template_source w OAUTH_ENV_HTTPCMD (OAUTH_DEF_HTTPCMD B) = Some tpl \<and>
          strstr tpl ''%p'' = Some i \<and> strstr tpl ''%u'' = Some j \<and>
          c_format (tpl[i + 1 := CHR ''s'', j + 1 := CHR ''s''])
            [if j < i then u else p, if j < i then p else u] = Inr full \<longrightarrow>
            oauth_exec_post B w u p =
              oauth_exec_shell (w\<lparr>heap := heap w @ [None]\<rparr>) (take (BUFSIZ B - 1) full)) \<and>
         (template_source w OAUTH_ENV_HTTPGET (OAUTH_DEF_HTTPGET B) = Some tpl \<and>
          strstr tpl ''%u'' = Some i \<and>
          url_argument w url q = Inr arg \<and>
          c_format (tpl[i + 1 := CHR ''s'']) [Some arg] = Inr full \<longrightarrow>
            oauth_exec_get B w (Some url) q =
              oauth_exec_shell (w\<lparr>heap := heap w @ [None]\<rparr>) (take (BUFSIZ B - 1) full)) \<and>
         length (take (BUFSIZ B - 1) full) = BUFSIZ B - 1 \<and>
         take (BUFSIZ B - 1) full \<noteq> full"
proof (intro conjI impI)
  assume h: "template_source w OAUTH_ENV_HTTPCMD (OAUTH_DEF_HTTPCMD B) = Some tpl \<and>
          strstr tpl ''%p'' = Some i \<and> strstr tpl ''%u'' = Some j \<and>
          c_format (tpl[i + 1 := CHR ''s'', j + 1 := CHR ''s''])
            [if j < i then u else p, if j < i then p else u] = Inr full"
  then have src: "template_source w OAUTH_ENV_HTTPCMD (OAUTH_DEF_HTTPCMD B) = Some tpl"
    and p: "strstr tpl ''%p'' = Some i" and u: "strstr tpl ''%u'' = Some j"
    and full: "c_format (tpl[i + 1 := CHR ''s'', j + 1 := CHR ''s''])
            [if j < i then u else p, if j < i then p else u] = Inr full"
    by blast+
  show "oauth_exec_post B w u p =
      oauth_exec_shell (w\<lparr>heap := heap w @ [None]\<rparr>) (take (BUFSIZ B - 1) full)"
    by (rule post_formats [OF src p u assms(1) full])
next
  assume h: "template_source w OAUTH_ENV_HTTPGET (OAUTH_DEF_HTTPGET B) = Some tpl \<and>
          strstr tpl ''%u'' = Some i \<and>
          url_argument w url q = Inr arg \<and>
          c_format (tpl[i + 1 := CHR ''s'']) [Some arg] = Inr full"
  then have src: "template_source w OAUTH_ENV_HTTPGET (OAUTH_DEF_HTTPGET B) = Some tpl"
    and u: "strstr tpl ''%u'' = Some i"
    and arg: "url_argument w url q = Inr arg"
    and full: "c_format (tpl[i + 1 := CHR ''s'']) [Some arg] = Inr full"
    by blast+
  show "oauth_exec_get B w (Some url) q =
      oauth_exec_shell (w\<lparr>heap := heap w @ [None]\<rparr>) (take (BUFSIZ B - 1) full)"
    by (rule get_formats [OF src u assms(1) arg full])
next
  from assms show cut: "length (take (BUFSIZ B - 1) full) = BUFSIZ B - 1"
    by simp
  with assms have "length (take (BUFSIZ B - 1) full) \<noteq> length full"
    by linarith
  then show "take (BUFSIZ B - 1) full \<noteq> full"
    by metis
qed

theorem overlong_command_is_cut_and_run_witness:
  "0 < BUFSIZ demo_build \<and>
   BUFSIZ demo_build \<le> length (replicate 8192 CHR ''a'') \<and>
   strstr ''%u'' ''%u'' = Some 0 \<and>
   c_format (''%u''[0 + 1 := CHR ''s'']) [Some (replicate 8192 CHR ''a'')] =
     Inr (replicate 8192 CHR ''a'') \<and>
   popen_calls (snd (oauth_exec_get demo_build (demo_world ''%p%u'' ''%u'' (Some ''ok''))
      (Some (replicate 8192 CHR ''a'')) None)) = [replicate 8191 CHR ''a''] \<and>
   strstr ''%p%u'' ''%p'' = Some 0 \<and> strstr ''%p%u'' ''%u'' = Some 2 \<and>
   c_format (''%p%u''[0 + 1 := CHR ''s'', 2 + 1 := CHR ''s''])
     [Some [], Some (replicate 8192 CHR ''a'')] = Inr (replicate 8192 CHR ''a'') \<and>
   popen_calls (snd (oauth_exec_post demo_build (demo_world ''%p%u'' ''%u'' (Some ''ok''))
      (Some (replicate 8192 CHR ''a'')) (Some []))) = [replicate 8191 CHR ''a'']"
proof -
  let ?w = "demo_world ''%p%u'' ''%u'' (Some ''ok'')"
  let ?a = "replicate 8192 CHR ''a''"
  have n: "0 < BUFSIZ demo_build" and long: "BUFSIZ demo_build \<le> length ?a"
    by (simp_all add: demo_build_def)
  have g: "template_source ?w OAUTH_ENV_HTTPGET (OAUTH_DEF_HTTPGET demo_build) = Some ''%u'' \<and>
      strstr ''%u'' ''%u'' = Some 0 \<and>
      url_argument ?w ?a None = Inr ?a \<and>
      c_format (''%u''[0 + 1 := CHR ''s'']) [Some ?a] = Inr ?a"
    by simp
  have p: "template_source ?w OAUTH_ENV_HTTPCMD (OAUTH_DEF_HTTPCMD demo_build) = Some ''%p%u'' \<and>
      strstr ''%p%u'' ''%p'' = Some 0 \<and> strstr ''%p%u'' ''%u'' = Some 2 \<and>
      c_format (''%p%u''[0 + 1 := CHR ''s'', 2 + 1 := CHR ''s''])
        [if (2::nat) < 0 then Some ?a else Some [], if (2::nat) < 0 then Some [] else Some ?a] =
        Inr ?a"
    by simp
  from overlong_command_is_cut_and_run [OF n long, of ?w "''%u''" 0 _ _ _ ?a None ?a] g
  have "oauth_exec_get demo_build ?w (Some ?a) None =
    oauth_exec_shell (?w\<lparr>heap := heap ?w @ [None]\<rparr>) (take (BUFSIZ demo_build - 1) ?a)"
    by blast
  then have get: "popen_calls (snd (oauth_exec_get demo_build ?w (Some ?a) None)) =
      [replicate 8191 CHR ''a'']"
    by (simp add: shell_popen_calls demo_world_def demo_build_def)
  from overlong_command_is_cut_and_run [OF n long, of ?w "''%p%u''" 0 2 "Some ?a" "Some []"] p
  have "oauth_exec_post demo_build ?w (Some ?a) (Some []) =
    oauth_exec_shell (?w\<lparr>heap := heap ?w @ [None]\<rparr>) (take (BUFSIZ demo_build - 1) ?a)"
    by blast
  then have post: "popen_calls (snd (oauth_exec_post demo_build ?w (Some ?a) (Some []))) =
      [replicate 8191 CHR ''a'']"
    by (simp add: shell_popen_calls demo_world_def demo_build_def)
  from p have p': "c_format (''%p%u''[0 + 1 := CHR ''s'', 2 + 1 := CHR ''s''])
     [Some [], Some ?a] = Inr ?a"
    by simp
  from n long g p p' get post show ?thesis by blast
qed

text \<open>
  A GET of an 8192-character URL through the template \<^verbatim>\<open>%u\<close> with \<open>BUFSIZ = 8192\<close>:
  the command that is run has 8191 characters, and the caller receives the child's
  output.
\<close>

theorem overlong_command_counterexample:
  "c_format ''%s'' [Some (replicate 8192 CHR ''a'')] = Inr (replicate 8192 CHR ''a'') \<and>
   BUFSIZ demo_build \<le> length (replicate 8192 CHR ''a'') \<and>
   fst (oauth_exec_get demo_build (demo_world [] ''%u'' (Some ''ok''))
      (Some (replicate 8192 CHR ''a'')) None) =
     Inr (Some (''ok'' @ NUL # drop 3 (map dirty [0..<1024]))) \<and>
   popen_calls (snd (oauth_exec_get demo_build (demo_world [] ''%u'' (Some ''ok''))
      (Some (replicate 8192 CHR ''a'')) None)) = [replicate 8191 CHR ''a'']"
proof -
  have n: "0 < BUFSIZ demo_build"
    by (simp add: demo_build_def)
  have src: "template_source (demo_world [] ''%u'' (Some ''ok'')) OAUTH_ENV_HTTPGET
        (OAUTH_DEF_HTTPGET demo_build) = Some ''%u''"
    by simp
  have u: "strstr ''%u'' ''%u'' = Some 0"
    by simp
  have arg: "url_argument (demo_world [] ''%u'' (Some ''ok'')) (replicate 8192 CHR ''a'') None =
        Inr (replicate 8192 CHR ''a'')"
    by simp
  have full: "c_format (''%u''[0 + 1 := CHR ''s'']) [Some (replicate 8192 CHR ''a'')] =
        Inr (replicate 8192 CHR ''a'')"
    by simp
  have out: "child_stdout ((demo_world [] ''%u'' (Some ''ok''))
      \<lparr>heap := heap (demo_world [] ''%u'' (Some ''ok'')) @ [None]\<rparr>)
      (take (BUFSIZ demo_build - 1) (replicate 8192 CHR ''a'')) = Some ''ok''"
    by (simp add: demo_world_def prints_def)
  have short: "length ''ok'' < 1024"
    by simp
  show ?thesis
    unfolding get_formats [OF src u n arg full] shell_short_output [OF out short]
    by (simp add: demo_build_def demo_world_def xmalloc_def numeral_3_eq_3)
qed

text \<open>
  Claim C3 says that a command that cannot be started makes \<^verbatim>\<open>oauth_exec_shell\<close>
  return the null pointer. The code does not: with the null stream it skips the loop
  and hands the null pointer to \<^verbatim>\<open>pclose\<close>, then stores through the null \<open>data\<close>.
  The run ends in the fault, after the command was handed to \<^verbatim>\<open>popen\<close>.
\<close>

theorem shell_spawn_failure_is_undefined:
  assumes "child_stdout w cmd = None"
  shows "oauth_exec_shell w cmd = (Inl Null_stream, w\<lparr>popen_calls := popen_calls w @ [cmd]\<rparr>)"
  using assms by (simp add: oauth_exec_shell_def)

theorem shell_spawn_failure_is_undefined_witness:
  "child_stdout (demo_world [] [] None) ''curl'' = None \<and>
   fst (oauth_exec_shell (demo_world [] [] None) ''curl'') = Inl Null_stream"
proof -
  have h: "child_stdout (demo_world [] [] None) ''curl'' = None"
    by (simp add: demo_world_def prints_def)
  show ?thesis
    using h shell_spawn_failure_is_undefined [OF h] by simp
qed

text \<open>
  Claim C4 says the returned buffer holds the bytes read, in order, with the NUL right
  after them. The code reads every chunk to the start of the block
  (\<^verbatim>\<open>fread(data, ...)\<close>, not \<^verbatim>\<open>data + len\<close>), so once the output needs a second
  round the later bytes lie over the first ones. For an output of more than 1024 and
  fewer than 2048 bytes the block is: the bytes after the first 1024, then what is left
  of the first 1024, then bytes never written, with the NUL stored at offset \<open>len\<close>
  among them.
\<close>

theorem shell_later_read_overwrites_start:
  assumes "child_stdout w cmd = Some out" and "1024 < length out" and "length out < 2048"
  shows "fst (oauth_exec_shell w cmd) =
     Inr (Some ((drop 1024 out @ drop (length out - 1024) (take 1024 out) @
                  map (uninit w) [1024..<2048])[length out := NUL]))"
  using shell_two_rounds [of w cmd out] assms by simp

theorem shell_later_read_overwrites_start_witness:
  "child_stdout (demo_world [] [] (Some (replicate 1024 CHR ''a'' @ ''b''))) ''cat f'' =
     Some (replicate 1024 CHR ''a'' @ ''b'') \<and>
   1024 < length (replicate 1024 CHR ''a'' @ ''b'') \<and>
   length (replicate 1024 CHR ''a'' @ ''b'') < 2048 \<and>
   fst (oauth_exec_shell (demo_world [] [] (Some (replicate 1024 CHR ''a'' @ ''b''))) ''cat f'') =
     Inr (Some (''b'' @ replicate 1023 CHR ''a'' @ [dirty 1024, NUL] @ map dirty [1026..<2048]))"
proof -
  let ?out = "replicate 1024 CHR ''a'' @ ''b''"
  have h: "child_stdout (demo_world [] [] (Some ?out)) ''cat f'' = Some ?out"
    by (simp add: demo_world_def prints_def)
  have lo: "1024 < length ?out" and hi: "length ?out < 2048"
    by simp_all
  have upt: "[1024..<2048] = 1024 # 1025 # [1026..<2048]"
    by (simp add: upt_conv_Cons)
  have "(''b'' @ replicate 1023 CHR ''a'' @ map dirty [1024..<2048])[1025 := NUL] =
      ''b'' @ replicate 1023 CHR ''a'' @ [dirty 1024, NUL] @ map dirty [1026..<2048]"
    unfolding upt by (simp add: list_update_append)
  with shell_later_read_overwrites_start [OF h lo hi]
  have "fst (oauth_exec_shell (demo_world [] [] (Some ?out)) ''cat f'') =
     Inr (Some (''b'' @ replicate 1023 CHR ''a'' @ [dirty 1024, NUL] @ map dirty [1026..<2048]))"
    by (simp add: demo_world_def)
  with h lo hi show ?thesis by blast
qed

text \<open>
  Claim C5 says that every request with a template lacking a placeholder ends with the
  null pointer and the diagnostic. What holds: a POST template in which \<^verbatim>\<open>%u\<close> or
  \<^verbatim>\<open>%p\<close> does not occur, and a GET template in which \<^verbatim>\<open>%u\<close> does not occur when
  the URL is not null, is rejected: the result is the null pointer, the diagnostic, which
  contains the name of the override variable, is appended to the diagnostic channel, and
  nothing is handed to \<^verbatim>\<open>popen\<close>.
\<close>

theorem invalid_template_is_rejected:
  "(template_source w OAUTH_ENV_HTTPCMD (OAUTH_DEF_HTTPCMD B) = Some tpl \<and>
    (\<not> sublist ''%u'' tpl \<or> \<not> sublist ''%p'' tpl) \<longrightarrow>
      fst (oauth_exec_post B w u p) = Inr None \<and>
      stderr (snd (oauth_exec_post B w u p)) = stderr w @ diagnostic OAUTH_ENV_HTTPCMD \<and>
      popen_calls (snd (oauth_exec_post B w u p)) = popen_calls w) \<and>
   (template_source w OAUTH_ENV_HTTPGET (OAUTH_DEF_HTTPGET B) = Some tpl \<and>
    \<not> sublist ''%u'' tpl \<longrightarrow>
      fst (oauth_exec_get B w (Some url) q) = Inr None \<and>
      stderr (snd (oauth_exec_get B w (Some url) q)) = stderr w @ diagnostic OAUTH_ENV_HTTPGET \<and>
      popen_calls (snd (oauth_exec_get B w (Some url) q)) = popen_calls w) \<and>
   sublist OAUTH_ENV_HTTPCMD (diagnostic OAUTH_ENV_HTTPCMD) \<and>
   sublist OAUTH_ENV_HTTPGET (diagnostic OAUTH_ENV_HTTPGET)"
proof (intro conjI impI)
  assume a: "template_source w OAUTH_ENV_HTTPCMD (OAUTH_DEF_HTTPCMD B) = Some tpl \<and>
    (\<not> sublist ''%u'' tpl \<or> \<not> sublist ''%p'' tpl)"
  then have miss: "strstr tpl ''%p'' = None \<or> strstr tpl ''%u'' = None"
    by (auto simp: strstr_None_iff)
  from a have src: "template_source w OAUTH_ENV_HTTPCMD (OAUTH_DEF_HTTPCMD B) = Some tpl" ..
  show "fst (oauth_exec_post B w u p) = Inr None"
    and "stderr (snd (oauth_exec_post B w u p)) = stderr w @ diagnostic OAUTH_ENV_HTTPCMD"
    and "popen_calls (snd (oauth_exec_post B w u p)) = popen_calls w"
    by (simp_all add: post_rejects [OF src miss])
next
  assume a: "template_source w OAUTH_ENV_HTTPGET (OAUTH_DEF_HTTPGET B) = Some tpl \<and>
    \<not> sublist ''%u'' tpl"
  then have miss: "strstr tpl ''%u'' = None"
    by (simp add: strstr_None_iff)
  from a have src: "template_source w OAUTH_ENV_HTTPGET (OAUTH_DEF_HTTPGET B) = Some tpl" ..
  show "fst (oauth_exec_get B w (Some url) q) = Inr None"
    and "stderr (snd (oauth_exec_get B w (Some url) q)) = stderr w @ diagnostic OAUTH_ENV_HTTPGET"
    and "popen_calls (snd (oauth_exec_get B w (Some url) q)) = popen_calls w"
    by (simp_all add: get_rejects [OF src miss])
next
  show "sublist OAUTH_ENV_HTTPCMD (diagnostic OAUTH_ENV_HTTPCMD)"
    and "sublist OAUTH_ENV_HTTPGET (diagnostic OAUTH_ENV_HTTPGET)"
    by (rule diagnostic_names_variable)+
qed

theorem invalid_template_is_rejected_witness:
  "template_source (demo_world ''curl -d %p'' ''wget'' (Some ''ok'')) OAUTH_ENV_HTTPCMD
      (OAUTH_DEF_HTTPCMD demo_build) = Some ''curl -d %p'' \<and>
   \<not> sublist ''%u'' ''curl -d %p'' \<and>
   fst (oauth_exec_post demo_build (demo_world ''curl -d %p'' ''wget'' (Some ''ok''))
      (Some ''http://h/'') (Some ''a=1'')) = Inr None \<and>
   stderr (snd (oauth_exec_post demo_build (demo_world ''curl -d %p'' ''wget'' (Some ''ok''))
      (Some ''http://h/'') (Some ''a=1''))) = diagnostic ''OAUTH_HTTP_CMD'' \<and>
   popen_calls (snd (oauth_exec_post demo_build (demo_world ''curl -d %p'' ''wget'' (Some ''ok''))
      (Some ''http://h/'') (Some ''a=1''))) = [] \<and>
   template_source (demo_world ''wget'' ''wget'' (Some ''ok'')) OAUTH_ENV_HTTPGET
      (OAUTH_DEF_HTTPGET demo_build) = Some ''wget'' \<and>
   \<not> sublist ''%u'' ''wget'' \<and>
   fst (oauth_exec_get demo_build (demo_world ''wget'' ''wget'' (Some ''ok''))
      (Some ''http://h/'') None) = Inr None \<and>
   stderr (snd (oauth_exec_get demo_build (demo_world ''wget'' ''wget'' (Some ''ok''))
      (Some ''http://h/'') None)) = diagnostic ''OAUTH_HTTP_GET_CMD'' \<and>
   popen_calls (snd (oauth_exec_get demo_build (demo_world ''wget'' ''wget'' (Some ''ok''))
      (Some ''http://h/'') None)) = []"
proof -
  have h: "template_source (demo_world ''curl -d %p'' ''wget'' (Some ''ok'')) OAUTH_ENV_HTTPCMD
      (OAUTH_DEF_HTTPCMD demo_build) = Some ''curl -d %p'' \<and>
    (\<not> sublist ''%u'' ''curl -d %p'' \<or> \<not> sublist ''%p'' ''curl -d %p'')"
    by (simp add: strstr_None_iff [symmetric])
  have g: "template_source (demo_world ''wget'' ''wget'' (Some ''ok'')) OAUTH_ENV_HTTPGET
      (OAUTH_DEF_HTTPGET demo_build) = Some ''wget'' \<and> \<not> sublist ''%u'' ''wget''"
    by (simp add: strstr_None_iff [symmetric])
  from invalid_template_is_rejected [of "demo_world ''curl -d %p'' ''wget'' (Some ''ok'')"
      demo_build "''curl -d %p''" "Some ''http://h/''" "Some ''a=1''"] h
  have post: "fst (oauth_exec_post demo_build (demo_world ''curl -d %p'' ''wget'' (Some ''ok''))
      (Some ''http://h/'') (Some ''a=1'')) = Inr None \<and>
   stderr (snd (oauth_exec_post demo_build (demo_world ''curl -d %p'' ''wget'' (Some ''ok''))
      (Some ''http://h/'') (Some ''a=1''))) = diagnostic ''OAUTH_HTTP_CMD'' \<and>
   popen_calls (snd (oauth_exec_post demo_build (demo_world ''curl -d %p'' ''wget'' (Some ''ok''))
      (Some ''http://h/'') (Some ''a=1''))) = []"
    by (simp add: demo_world_def OAUTH_ENV_HTTPCMD_def)
  from invalid_template_is_rejected [of "demo_world ''wget'' ''wget'' (Some ''ok'')"
      demo_build "''wget''" _ _ "''http://h/''" None] g
  have get: "fst (oauth_exec_get demo_build (demo_world ''wget'' ''wget'' (Some ''ok''))
      (Some ''http://h/'') None) = Inr None \<and>
   stderr (snd (oauth_exec_get demo_build (demo_world ''wget'' ''wget'' (Some ''ok''))
      (Some ''http://h/'') None)) = diagnostic ''OAUTH_HTTP_GET_CMD'' \<and>
   popen_calls (snd (oauth_exec_get demo_build (demo_world ''wget'' ''wget'' (Some ''ok''))
      (Some ''http://h/'') None)) = []"
    by (simp add: demo_world_def OAUTH_ENV_HTTPGET_def)
  have nu: "\<not> sublist ''%u'' ''curl -d %p''"
    by (simp add: strstr_None_iff [symmetric])
  from h g nu post get show ?thesis by blast
qed

text \<open>
  A GET with a null URL and the template \<^verbatim>\<open>wget\<close>, which lacks \<^verbatim>\<open>%u\<close>: the test
  of the URL returns the null pointer before the template is looked at, and nothing is
  printed.
\<close>

theorem invalid_template_null_url_counterexample:
  "template_source (demo_world ''wget'' ''wget'' (Some ''ok'')) OAUTH_ENV_HTTPGET
      (OAUTH_DEF_HTTPGET demo_build) = Some ''wget'' \<and>
   \<not> sublist ''%u'' ''wget'' \<and>
   oauth_exec_get demo_build (demo_world ''wget'' ''wget'' (Some ''ok'')) None None =
     (Inr None, demo_world ''wget'' ''wget'' (Some ''ok'')) \<and>
   stderr (snd (oauth_exec_get demo_build (demo_world ''wget'' ''wget'' (Some ''ok''))
      None None)) = [] \<and>
   stderr (snd (oauth_exec_get demo_build (demo_world ''wget'' ''wget'' (Some ''ok''))
      None None)) \<noteq>
     stderr (demo_world ''wget'' ''wget'' (Some ''ok'')) @ diagnostic OAUTH_ENV_HTTPGET"
proof -
  have "\<not> sublist ''%u'' ''wget''"
    by (simp add: strstr_None_iff [symmetric])
  moreover have "diagnostic OAUTH_ENV_HTTPGET \<noteq> []"
    by (simp add: diagnostic_def)
  moreover have "template_source (demo_world ''wget'' ''wget'' (Some ''ok'')) OAUTH_ENV_HTTPGET
      (OAUTH_DEF_HTTPGET demo_build) = Some ''wget''"
    by simp
  moreover have "stderr (demo_world ''wget'' ''wget'' (Some ''ok'')) = []"
    by (simp add: demo_world_def)
  ultimately show ?thesis
    by (simp add: oauth_exec_get_def)
qed

text \<open>
  Claim C6. A child that is started and writes nothing gives a buffer, not a failure: the
  block of the first round with a NUL at offset 0, which read as a C string is empty.
\<close>

theorem shell_empty_output_is_empty_buffer:
  assumes "child_stdout w cmd = Some []"
  shows "fst (oauth_exec_shell w cmd) = Inr (Some (NUL # drop 1 (xmalloc w 1024))) \<and>
         c_str (NUL # drop 1 (xmalloc w 1024)) = Inr []"
  using shell_short_output [OF assms] c_str_at_NUL [of "[]"] by simp

theorem shell_empty_output_is_empty_buffer_witness:
  "child_stdout (demo_world [] [] (Some [])) ''true'' = Some [] \<and>
   fst (oauth_exec_shell (demo_world [] [] (Some [])) ''true'') =
     Inr (Some (NUL # drop 1 (xmalloc (demo_world [] [] (Some [])) 1024))) \<and>
   c_str (NUL # drop 1 (xmalloc (demo_world [] [] (Some [])) 1024)) = Inr []"
proof -
  have h: "child_stdout (demo_world [] [] (Some [])) ''true'' = Some []"
    by (simp add: demo_world_def prints_def)
  show ?thesis
    using h shell_empty_output_is_empty_buffer [OF h] by simp
qed

text \<open>
  Claim C7 says that a GET with a query formats the URL, a question mark and the query.
  The code appends the three with \<^verbatim>\<open>strcat\<close> to a block it has just allocated and
  never written. Unless that block happens to start with a NUL, the text does not fit
  the block and the copy runs past its end; no command is run.
\<close>

theorem get_query_appended_to_stale_bytes:
  assumes "template_source w OAUTH_ENV_HTTPGET (OAUTH_DEF_HTTPGET B) = Some tpl"
    and "strstr tpl ''%u'' = Some i"
    and "NUL \<notin> set url" and "NUL \<notin> set query"
    and "uninit w 0 \<noteq> NUL"
  shows "url_argument w url (Some query) = Inl Buffer_overrun \<and>
         fst (oauth_exec_get B w (Some url) (Some query)) = Inl Buffer_overrun \<and>
         popen_calls (snd (oauth_exec_get B w (Some url) (Some query))) = popen_calls w"
  using assms(5) by (simp add: get_runs [OF assms(1,2)] url_argument_Some [OF assms(3,4)])

theorem get_query_appended_to_stale_bytes_witness:
  "template_source (demo_world [] ''echo %u'' (Some [])) OAUTH_ENV_HTTPGET
     (OAUTH_DEF_HTTPGET demo_build) = Some ''echo %u'' \<and>
   strstr ''echo %u'' ''%u'' = Some 5 \<and>
   NUL \<notin> set ''http://h/'' \<and> NUL \<notin> set ''a=1'' \<and>
   uninit (demo_world [] ''echo %u'' (Some [])) 0 \<noteq> NUL \<and>
   fst (oauth_exec_get demo_build (demo_world [] ''echo %u'' (Some []))
     (Some ''http://h/'') (Some ''a=1'')) = Inl Buffer_overrun \<and>
   popen_calls (snd (oauth_exec_get demo_build (demo_world [] ''echo %u'' (Some []))
     (Some ''http://h/'') (Some ''a=1''))) = []"
proof -
  let ?w = "demo_world [] ''echo %u'' (Some [])"
  have src: "template_source ?w OAUTH_ENV_HTTPGET (OAUTH_DEF_HTTPGET demo_build) =
      Some ''echo %u''"
    by simp
  have i: "strstr ''echo %u'' ''%u'' = Some 5"
    by simp
  have u: "NUL \<notin> set ''http://h/''" and q: "NUL \<notin> set ''a=1''"
    by (simp_all add: NUL_def)
  have d: "uninit ?w 0 \<noteq> NUL"
    by (simp add: demo_world_def dirty_def NUL_def)
  from get_query_appended_to_stale_bytes [OF src i u q d]
  have "fst (oauth_exec_get demo_build ?w (Some ''http://h/'') (Some ''a=1'')) =
      Inl Buffer_overrun \<and>
    popen_calls (snd (oauth_exec_get demo_build ?w (Some ''http://h/'') (Some ''a=1''))) = []"
    by (simp add: demo_world_def)
  with src i u q d show ?thesis by blast
qed

text \<open>
  Claim C8. One round of the capture loop, from any state: the block is resized to
  \<open>alloc + 1024\<close> bytes, the read of up to 1024 bytes goes into that resized block
  and stays inside it, and the new state holds the block, whose length is the new
  \<open>alloc\<close>. No round and no run of the loop ends in an overrun. At the end of a run
  from the initial locals, \<open>data\<close> is a block of \<open>alloc\<close> bytes, at least 1024, and
  \<open>len\<close> is below \<open>alloc\<close>.
\<close>

theorem capture_read_stays_in_block:
  "length (xrealloc w (data st) (alloc st + 1024)) = alloc st + 1024 \<and>
   fread (xrealloc w (data st) (alloc st + 1024)) 1024 (inp st) \<noteq> Inl Buffer_overrun \<and>
   capture_step w st =
     Inr \<lparr>inp = \<lparr>pending = drop 1024 (pending (inp st)),
                 at_eof = (at_eof (inp st) \<or> length (pending (inp st)) < 1024)\<rparr>,
          len = len st + min (length (pending (inp st))) 1024,
          alloc = alloc st + 1024,
          data = Some (take 1024 (pending (inp st)) @
                   drop (min (length (pending (inp st))) 1024)
                     (xrealloc w (data st) (alloc st + 1024))),
          rcv = int (min (length (pending (inp st))) 1024)\<rparr> \<and>
   length (take 1024 (pending (inp st)) @
           drop (min (length (pending (inp st))) 1024)
             (xrealloc w (data st) (alloc st + 1024))) = alloc st + 1024 \<and>
   (\<exists>st'. capture_loop w st = Inr st') \<and>
   (\<exists>st' blk. capture_loop w (capture_start out) = Inr st' \<and>
      data st' = Some blk \<and> length blk = alloc st' \<and> 1024 \<le> alloc st' \<and>
      len st' < alloc st')"
proof (intro conjI)
  show "length (xrealloc w (data st) (alloc st + 1024)) = alloc st + 1024"
    by simp
  show "fread (xrealloc w (data st) (alloc st + 1024)) 1024 (inp st) \<noteq> Inl Buffer_overrun"
    by (simp add: fread_def Let_def)
  show "capture_step w st =
     Inr \<lparr>inp = \<lparr>pending = drop 1024 (pending (inp st)),
                 at_eof = (at_eof (inp st) \<or> length (pending (inp st)) < 1024)\<rparr>,
          len = len st + min (length (pending (inp st))) 1024,
          alloc = alloc st + 1024,
          data = Some (take 1024 (pending (inp st)) @
                   drop (min (length (pending (inp st))) 1024)
                     (xrealloc w (data st) (alloc st + 1024))),
          rcv = int (min (length (pending (inp st))) 1024)\<rparr>"
    by (rule capture_step_result)
  show "length (take 1024 (pending (inp st)) @
           drop (min (length (pending (inp st))) 1024)
             (xrealloc w (data st) (alloc st + 1024))) = alloc st + 1024"
    by (simp add: min_def)
  show "\<exists>st'. capture_loop w st = Inr st'"
    by (rule capture_loop_total)
  show "\<exists>st' blk. capture_loop w (capture_start out) = Inr st' \<and>
      data st' = Some blk \<and> length blk = alloc st' \<and> 1024 \<le> alloc st' \<and>
      len st' < alloc st'"
    by (rule capture_from_start)
qed

text \<open>
  Claim C9. Both formatters write only into the copy they made of the template. After
  any request, whatever its outcome, the environment is the same, every block that
  existed before holds what it held, and the template the next request will read is the
  one this request read. The built-in default is a constant that \<^verbatim>\<open>strdup\<close> only reads.
\<close>

theorem template_sources_are_not_written:
  "environ (snd (oauth_exec_post B w u p)) = environ w \<and>
   take (length (heap w)) (heap (snd (oauth_exec_post B w u p))) = heap w \<and>
   template_source (snd (oauth_exec_post B w u p)) OAUTH_ENV_HTTPCMD (OAUTH_DEF_HTTPCMD B) =
     template_source w OAUTH_ENV_HTTPCMD (OAUTH_DEF_HTTPCMD B) \<and>
   environ (snd (oauth_exec_get B w u q)) = environ w \<and>
   take (length (heap w)) (heap (snd (oauth_exec_get B w u q))) = heap w \<and>
   template_source (snd (oauth_exec_get B w u q)) OAUTH_ENV_HTTPGET (OAUTH_DEF_HTTPGET B) =
     template_source w OAUTH_ENV_HTTPGET (OAUTH_DEF_HTTPGET B)"
  using post_keeps_sources [of B w u p] get_keeps_sources [of B w u q]
    post_keeps_template [of B w u p] get_keeps_template [of B w u q]
  by simp

text \<open>
  Claim C10. With a null URL \<^verbatim>\<open>oauth_exec_get\<close> returns the null pointer and leaves
  the world as it was: no template is copied, nothing is printed, nothing is run.
  \<^verbatim>\<open>oauth_exec_post\<close> has no such test: with a null URL it never returns the null
  pointer from an untouched world (it has copied the template by then, or faulted).
\<close>

theorem get_null_url_guard:
  "oauth_exec_get B w None q = (Inr None, w) \<and> oauth_exec_post B w None p \<noteq> (Inr None, w)"
  using post_never_returns_untouched [of B w None p] by (simp add: oauth_exec_get_def)

end
